theory Spec2Isabelle
  imports Main "HOL-Library.Word"
begin

section \<open>Bytes, buffers and faults\<close>

text \<open>
  The driver works on raw byte buffers through pointers. A buffer is a list of bytes; a
  pointer into an allocation is the suffix of the allocation that starts at the pointer,
  so that a read or write relative to the pointer that leaves the allocation is visible.
  Such an access is undefined behaviour in C; the model stops there with the fault
  \<open>Out_of_bounds\<close>, and with \<open>Null_pointer\<close> where the pointer is \<open>NULL\<close>. A failed
  \<open>g_assert\<close> aborts the process: \<open>Assertion_failed\<close>. \<open>Read_refused\<close> is explained
  with the byte reader.
\<close>

type_synonym byte = "8 word"
type_synonym bytes = "byte list"

datatype fault = Out_of_bounds | Null_pointer | Assertion_failed | Read_refused

text \<open>Sequencing of fallible steps: the first fault ends the function.\<close>

definition bindf :: "fault + 'a \<Rightarrow> ('a \<Rightarrow> fault + 'b) \<Rightarrow> fault + 'b" where
  "bindf m f = (case m of Inl e \<Rightarrow> Inl e | Inr x \<Rightarrow> f x)"

text \<open>\<open>SHA256_DIGEST_LENGTH\<close> of openssl/sha.h.\<close>

abbreviation SHA256_DIGEST_LENGTH :: nat where
  "SHA256_DIGEST_LENGTH \<equiv> 32"

text \<open>The value of an unsigned expression computed in \<open>guint32\<close>: it wraps at \<open>2 ^ 32\<close>.\<close>

definition guint32 :: "nat \<Rightarrow> nat" where
  "guint32 n = n mod 2 ^ 32"

text \<open>\<open>g_malloc0 (n)\<close>: a fresh allocation of \<open>n\<close> zero bytes.\<close>

definition g_malloc0 :: "nat \<Rightarrow> bytes" where
  "g_malloc0 n = replicate n 0"

text \<open>
  An array that is declared without an initialiser, or comes from \<open>g_malloc\<close>. Its
  content is indeterminate; every use below overwrites all of it before any byte is read.
\<close>

definition uninitialised :: "nat \<Rightarrow> bytes" where
  "uninitialised n = replicate n 0"

text \<open>A pointer field of the device structure: \<open>None\<close> is \<open>NULL\<close>.\<close>

definition deref :: "'a option \<Rightarrow> fault + 'a" where
  "deref p = (case p of None \<Rightarrow> Inl Null_pointer | Some x \<Rightarrow> Inr x)"

text \<open>Reading \<open>n\<close> bytes at offset \<open>off\<close> of the memory at a pointer.\<close>

definition rd :: "bytes \<Rightarrow> nat \<Rightarrow> nat \<Rightarrow> fault + bytes" where
  "rd mem off n =
     (if off + n \<le> length mem then Inr (take n (drop off mem)) else Inl Out_of_bounds)"

text \<open>
  \<open>memcpy (dst + off, src, n)\<close>: the first \<open>n\<close> bytes at \<open>src\<close> replace the \<open>n\<close> bytes
  of \<open>dst\<close> from offset \<open>off\<close> on; the updated \<open>dst\<close> is returned.
\<close>

definition memcpy :: "bytes \<Rightarrow> nat \<Rightarrow> bytes \<Rightarrow> nat \<Rightarrow> fault + bytes" where
  "memcpy dst off src n =
     (if off + n \<le> length dst \<and> n \<le> length src
      then Inr (take off dst @ take n src @ drop (off + n) dst)
      else Inl Out_of_bounds)"

section \<open>The cryptographic library\<close>

text \<open>
  OpenSSL is not part of the driver. Its functions are parameters of the model:
  \<open>HMAC\<close> is \<open>HMAC (EVP_sha256 (), key, key_len, data, data_len, ...)\<close> as a function of
  the key bytes and the data bytes, \<open>SHA256\<close> the digest of the data bytes.
\<close>

text \<open>
  An \<open>EC_KEY\<close> on the curve \<open>NID_X9_62_prime256v1\<close>: the affine coordinates of the
  public point and the private scalar, each absent until it is set.
\<close>

record EC_KEY =
  pub_key :: "(nat \<times> nat) option"
  priv_key :: "nat option"

definition EC_KEY_new_by_curve_name :: EC_KEY where
  "EC_KEY_new_by_curve_name = \<lparr> pub_key = None, priv_key = None \<rparr>"

text \<open>
  \<open>EVP_DecryptInit key iv\<close> tells whether the AES-256-CBC context could be set up.
  \<open>EVP_DecryptUpdate key iv input\<close> and \<open>EVP_DecryptFinal key iv input\<close> give the bytes
  that the call writes to its output pointer (their number is the \<open>tlen\<close> it returns),
  or \<open>None\<close> when the call returns 0.
  \<open>EC_KEY_set_public_key_affine_coordinates x y\<close>, \<open>EC_KEY_set_private_key key d\<close> and
  \<open>EC_KEY_check_key key\<close> tell whether the call succeeds.
  \<open>ECDSA_verify dgst sig key\<close> is the status of
  \<open>ECDSA_verify (0, dgst, dgst_len, sig, sig_len, key)\<close>: 1 for a valid signature,
  0 for an invalid one, negative for an error.
\<close>

record crypto =
  HMAC :: "bytes \<Rightarrow> bytes \<Rightarrow> bytes"
  SHA256 :: "bytes \<Rightarrow> bytes"
  EVP_DecryptInit :: "bytes \<Rightarrow> bytes \<Rightarrow> bool"
  EVP_DecryptUpdate :: "bytes \<Rightarrow> bytes \<Rightarrow> bytes \<Rightarrow> bytes option"
  EVP_DecryptFinal :: "bytes \<Rightarrow> bytes \<Rightarrow> bytes \<Rightarrow> bytes option"
  EC_KEY_set_public_key_affine_coordinates :: "nat \<Rightarrow> nat \<Rightarrow> bool"
  EC_KEY_set_private_key :: "EC_KEY \<Rightarrow> nat \<Rightarrow> bool"
  EC_KEY_check_key :: "EC_KEY \<Rightarrow> bool"
  ECDSA_verify :: "bytes \<Rightarrow> bytes \<Rightarrow> EC_KEY \<Rightarrow> int"

text \<open>Both digests are \<open>SHA256_DIGEST_LENGTH\<close> bytes long.\<close>

definition digest_sized :: "crypto \<Rightarrow> bool" where
  "digest_sized cr \<longleftrightarrow>
     (\<forall>k d. length (HMAC cr k d) = SHA256_DIGEST_LENGTH) \<and>
     (\<forall>d. length (SHA256 cr d) = SHA256_DIGEST_LENGTH)"

section \<open>Key derivation\<close>

text \<open>
  \<open>HMAC_SHA256 (key, key_len, data, data_len, result)\<close>: the digest is written to the
  first 32 bytes at \<open>result\<close>. The data is read before the result is written, so
  \<open>result\<close> may be the data's own buffer.
\<close>

definition HMAC_SHA256 :: "crypto \<Rightarrow> bytes \<Rightarrow> bytes \<Rightarrow> bytes \<Rightarrow> fault + bytes" where
  "HMAC_SHA256 cr key data result = memcpy result 0 (HMAC cr key data) SHA256_DIGEST_LENGTH"

text \<open>
  The loop of \<open>PRF_SHA256\<close>. \<open>A\<close> is the heap buffer of
  \<open>SHA256_DIGEST_LENGTH + label_len + seed_len\<close> bytes, \<open>out\<close> the caller's buffer,
  \<open>pos\<close> the number of bytes written. \<open>P\<close> is a 32-byte array on the stack that
  \<open>HMAC_SHA256\<close> fills.
\<close>

function PRF_loop ::
  "crypto \<Rightarrow> bytes \<Rightarrow> bytes \<Rightarrow> bytes \<Rightarrow> nat \<Rightarrow> bytes \<Rightarrow> bytes \<Rightarrow> nat \<Rightarrow> fault + bytes" where
  "PRF_loop cr secret label seed len A out pos =
     (if pos < len then
        bindf (memcpy A SHA256_DIGEST_LENGTH label (length label)) (\<lambda>A1.
        bindf (memcpy A1 (SHA256_DIGEST_LENGTH + length label) seed (length seed)) (\<lambda>A2.
        bindf (rd A2 0 (guint32 (SHA256_DIGEST_LENGTH + length label + length seed))) (\<lambda>d.
        bindf (HMAC_SHA256 cr secret d (uninitialised SHA256_DIGEST_LENGTH)) (\<lambda>P.
        bindf (rd A2 0 SHA256_DIGEST_LENGTH) (\<lambda>a.
        bindf (HMAC_SHA256 cr secret a A2) (\<lambda>A3.
        let size = min (len - pos) SHA256_DIGEST_LENGTH in
        bindf (memcpy out pos P size) (\<lambda>out'.
        PRF_loop cr secret label seed len A3 out' (pos + size))))))))
      else Inr out)"
  by pat_completeness auto
termination
  by (relation "measure (\<lambda>(cr, secret, label, seed, len, A, out, pos). len - pos)") auto

declare PRF_loop.simps [simp del]

text \<open>
  \<open>PRF_SHA256 (secret, secret_len, label, label_len, seed, seed_len, out, len)\<close>.
  Each input buffer is given with its length, so a list stands for both. The lengths
  are \<open>guint32\<close>, and so are the sums the function computes from them. The result is
  the caller's buffer \<open>out\<close> after the call.
\<close>

definition PRF_SHA256 ::
  "crypto \<Rightarrow> bytes \<Rightarrow> bytes \<Rightarrow> bytes \<Rightarrow> bytes \<Rightarrow> nat \<Rightarrow> fault + bytes" where
  "PRF_SHA256 cr secret label seed out len =
     (let label_len = length label; seed_len = length seed;
          A = g_malloc0 (guint32 (SHA256_DIGEST_LENGTH + label_len + seed_len)) in
      bindf (memcpy A 0 label label_len) (\<lambda>A0.
      bindf (memcpy A0 label_len seed seed_len) (\<lambda>A0'.
      bindf (rd A0' 0 (guint32 (label_len + seed_len))) (\<lambda>d.
      bindf (HMAC_SHA256 cr secret d A0') (\<lambda>A1.
      PRF_loop cr secret label seed len A1 out 0)))))"

subsection \<open>The expansion of RFC 5246\<close>

text \<open>
  \<open>A(0) = label || seed\<close>, \<open>A(i) = HMAC(secret, A(i-1))\<close>; the first \<open>n\<close> blocks of the
  output are \<open>HMAC(secret, A(i) || label || seed)\<close> for \<open>i = 1, ..., n\<close>.
\<close>

fun A_hash :: "crypto \<Rightarrow> bytes \<Rightarrow> bytes \<Rightarrow> nat \<Rightarrow> bytes" where
  "A_hash cr secret lseed 0 = lseed"
| "A_hash cr secret lseed (Suc i) = HMAC cr secret (A_hash cr secret lseed i)"

definition P_hash :: "crypto \<Rightarrow> bytes \<Rightarrow> bytes \<Rightarrow> nat \<Rightarrow> bytes" where
  "P_hash cr secret lseed n =
     concat (map (\<lambda>i. HMAC cr secret (A_hash cr secret lseed i @ lseed)) [1..<Suc n])"


text \<open>
  The same blocks, generated the way the loop does: from the current \<open>A(i)\<close>, with
  \<open>A(i+1)\<close> computed on the way.
\<close>

fun P_blocks :: "crypto \<Rightarrow> bytes \<Rightarrow> bytes \<Rightarrow> bytes \<Rightarrow> nat \<Rightarrow> bytes" where
  "P_blocks cr secret lseed a 0 = []"
| "P_blocks cr secret lseed a (Suc n) =
     HMAC cr secret (a @ lseed) @ P_blocks cr secret lseed (HMAC cr secret a) n"

section \<open>The device structure\<close>

text \<open>
  The messages of \<open>fp_dbg\<close>, \<open>fp_info\<close>, \<open>fp_warn\<close> and \<open>fp_err\<close> are kept, in order, with
  their format strings.
\<close>

datatype log_level = LOG_DEBUG | LOG_INFO | LOG_WARNING | LOG_ERROR

type_synonym message = "log_level \<times> string"

text \<open>
  \<open>FpiDeviceVfs0097\<close>, with the fields the driver uses. \<open>messages\<close> is not a field of the C
  structure: it is the log written so far.
\<close>

record FpiDeviceVfs0097 =
  seed :: "bytes option"
  seed_length :: nat
  buffer :: "bytes option"
  buffer_length :: nat
  certificate :: "bytes option"
  certificate_length :: nat
  private_key :: "EC_KEY option"
  ecdh_q :: "EC_KEY option"
  messages :: "message list"

definition fp_log :: "log_level \<Rightarrow> string \<Rightarrow> FpiDeviceVfs0097 \<Rightarrow> FpiDeviceVfs0097" where
  "fp_log lvl msg self = self\<lparr>messages := messages self @ [(lvl, msg)]\<rparr>"

abbreviation fp_dbg :: "string \<Rightarrow> FpiDeviceVfs0097 \<Rightarrow> FpiDeviceVfs0097" where
  "fp_dbg \<equiv> fp_log LOG_DEBUG"

abbreviation fp_warn :: "string \<Rightarrow> FpiDeviceVfs0097 \<Rightarrow> FpiDeviceVfs0097" where
  "fp_warn \<equiv> fp_log LOG_WARNING"

abbreviation fp_err :: "string \<Rightarrow> FpiDeviceVfs0097 \<Rightarrow> FpiDeviceVfs0097" where
  "fp_err \<equiv> fp_log LOG_ERROR"

text \<open>
  The constants of vfs0097.h, which has no source here: the PRF inputs, the
  manufacturer's public key, the six command payloads and the size of the response
  buffer. They are parameters of the model.
\<close>

record vfs0097_h =
  PRE_KEY :: bytes
  LABEL :: bytes
  LABEL_SIGN :: bytes
  SIGN_KEY :: bytes
  DEVICE_KEY_X :: bytes
  DEVICE_KEY_Y :: bytes
  INIT_SEQUENCE_MSG1 :: bytes
  INIT_SEQUENCE_MSG2 :: bytes
  INIT_SEQUENCE_MSG3 :: bytes
  INIT_SEQUENCE_MSG4 :: bytes
  INIT_SEQUENCE_MSG5 :: bytes
  INIT_SEQUENCE_MSG6 :: bytes
  VFS_USB_BUFFER_SIZE :: nat

section \<open>Big numbers\<close>

text \<open>\<open>BN_lebin2bn\<close> and \<open>BN_bin2bn\<close>: the number a byte string denotes, little and big endian.\<close>

fun BN_lebin2bn :: "bytes \<Rightarrow> nat" where
  "BN_lebin2bn [] = 0"
| "BN_lebin2bn (b # bs) = unat b + 256 * BN_lebin2bn bs"

definition BN_bin2bn :: "bytes \<Rightarrow> nat" where
  "BN_bin2bn bs = BN_lebin2bn (rev bs)"

section \<open>The byte reader\<close>

text \<open>
  Modelled from the spec: the byte reader (fpi-byte-reader.h) has no source here. The
  data model of the specification fixes what the driver reads with it: skip fields,
  little-endian integers of 1, 2 and 4 bytes, and byte strings of a given length, one
  after the other. A reader is a window of \<open>rsize\<close> bytes on the memory at \<open>rdata\<close> with a
  position \<open>rbyte\<close>; a read takes its bytes at the position and moves the position past
  them. A call that asks for more than the window has left reads nothing. The driver
  never looks at the result of a call; the model ends the function at such a call with
  \<open>Read_refused\<close> and says nothing about what the driver does after it.
\<close>

record FpiByteReader =
  rdata :: bytes
  rsize :: nat
  rbyte :: nat

definition fpi_byte_reader_init :: "bytes \<Rightarrow> nat \<Rightarrow> FpiByteReader" where
  "fpi_byte_reader_init data' size' = \<lparr> rdata = data', rsize = size', rbyte = 0 \<rparr>"

definition fpi_byte_reader_get_remaining :: "FpiByteReader \<Rightarrow> nat" where
  "fpi_byte_reader_get_remaining r = rsize r - rbyte r"

definition fpi_byte_reader_get_pos :: "FpiByteReader \<Rightarrow> nat" where
  "fpi_byte_reader_get_pos r = rbyte r"

definition fpi_byte_reader_set_pos :: "FpiByteReader \<Rightarrow> nat \<Rightarrow> fault + FpiByteReader" where
  "fpi_byte_reader_set_pos r pos =
     (if pos \<le> rsize r then Inr (r\<lparr>rbyte := pos\<rparr>) else Inl Read_refused)"

definition fpi_byte_reader_skip :: "FpiByteReader \<Rightarrow> nat \<Rightarrow> fault + FpiByteReader" where
  "fpi_byte_reader_skip r n =
     (if n \<le> fpi_byte_reader_get_remaining r then Inr (r\<lparr>rbyte := rbyte r + n\<rparr>)
      else Inl Read_refused)"

text \<open>\<open>fpi_byte_reader_get_data\<close> gives a pointer to the bytes at the position.\<close>

definition fpi_byte_reader_get_data ::
  "FpiByteReader \<Rightarrow> nat \<Rightarrow> fault + (bytes \<times> FpiByteReader)" where
  "fpi_byte_reader_get_data r n =
     (if n \<le> fpi_byte_reader_get_remaining r
      then Inr (drop (rbyte r) (rdata r), r\<lparr>rbyte := rbyte r + n\<rparr>)
      else Inl Read_refused)"

definition get_uint_le :: "nat \<Rightarrow> FpiByteReader \<Rightarrow> fault + (nat \<times> FpiByteReader)" where
  "get_uint_le n r =
     bindf (fpi_byte_reader_get_data r n) (\<lambda>(p, r').
     bindf (rd p 0 n) (\<lambda>bs. Inr (BN_lebin2bn bs, r')))"

abbreviation fpi_byte_reader_get_uint8 :: "FpiByteReader \<Rightarrow> fault + (nat \<times> FpiByteReader)" where
  "fpi_byte_reader_get_uint8 \<equiv> get_uint_le 1"

abbreviation fpi_byte_reader_get_uint16_le :: "FpiByteReader \<Rightarrow> fault + (nat \<times> FpiByteReader)" where
  "fpi_byte_reader_get_uint16_le \<equiv> get_uint_le 2"

abbreviation fpi_byte_reader_get_uint32_le :: "FpiByteReader \<Rightarrow> fault + (nat \<times> FpiByteReader)" where
  "fpi_byte_reader_get_uint32_le \<equiv> get_uint_le 4"

section \<open>The private key block\<close>

text \<open>
  The two keys that \<open>init_private_key\<close> derives first (its arrays \<open>AES_MASTER_KEY\<close> and
  \<open>VALIDATION_KEY\<close>): the seed of the device, read with its length, feeds the first PRF,
  whose output is the secret of the second.
\<close>

definition AES_MASTER_KEY :: "crypto \<Rightarrow> vfs0097_h \<Rightarrow> FpiDeviceVfs0097 \<Rightarrow> fault + bytes" where
  "AES_MASTER_KEY cr h self =
     bindf (deref (seed self)) (\<lambda>seed_mem.
     bindf (rd seed_mem 0 (guint32 (seed_length self))) (\<lambda>seed_bytes.
     PRF_SHA256 cr (PRE_KEY h) (LABEL h) seed_bytes
       (uninitialised SHA256_DIGEST_LENGTH) SHA256_DIGEST_LENGTH))"

definition VALIDATION_KEY :: "crypto \<Rightarrow> vfs0097_h \<Rightarrow> bytes \<Rightarrow> fault + bytes" where
  "VALIDATION_KEY cr h master_key =
     PRF_SHA256 cr master_key (LABEL_SIGN h) (SIGN_KEY h)
       (uninitialised SHA256_DIGEST_LENGTH) SHA256_DIGEST_LENGTH"

text \<open>
  \<open>init_private_key (self, body, size)\<close>. \<open>body\<close> is the memory at the pointer, \<open>size\<close> the
  \<open>guint16\<close> length of the block body. \<open>size - 1 - SHA256_DIGEST_LENGTH\<close> is computed in
  \<open>int\<close> and passed as a \<open>guint32\<close>; \<open>&body[size - SHA256_DIGEST_LENGTH]\<close> lies before
  \<open>body\<close> when \<open>size < 32\<close>. The plaintext is what the two decryption calls wrote to
  \<open>decrypted\<close>, a buffer of \<open>0x70\<close> bytes. Every \<open>return\<close> of the C function returns the
  device structure as it is then. \<open>signature_verification_failed\<close> is the text of the
  warning after the comparison of the two digests.
\<close>

definition signature_verification_failed :: string where
  "signature_verification_failed =
     ''Signature verification failed. '' @
     ''This device was probably paired with another computer.''"

definition init_private_key ::
  "crypto \<Rightarrow> vfs0097_h \<Rightarrow> FpiDeviceVfs0097 \<Rightarrow> bytes \<Rightarrow> nat \<Rightarrow> fault + FpiDeviceVfs0097" where
  "init_private_key cr h self body size' =
     bindf (AES_MASTER_KEY cr h self) (\<lambda>master_key.
     bindf (VALIDATION_KEY cr h master_key) (\<lambda>validation_key.
     bindf (rd body 0 1) (\<lambda>prefix.
     if prefix \<noteq> [2] then Inr (fp_warn ''Unknown private key prefix %02x'' self) else
     bindf (rd body 1 (nat ((int size' - 1 - int SHA256_DIGEST_LENGTH) mod 2 ^ 32))) (\<lambda>encrypted.
     bindf (HMAC_SHA256 cr validation_key encrypted (uninitialised SHA256_DIGEST_LENGTH)) (\<lambda>calc_hash.
     bindf (if size' < SHA256_DIGEST_LENGTH then Inl Out_of_bounds
            else rd body (size' - SHA256_DIGEST_LENGTH) SHA256_DIGEST_LENGTH) (\<lambda>hash.
     if calc_hash \<noteq> hash then Inr (fp_warn signature_verification_failed self) else
     bindf (rd body 1 16) (\<lambda>iv.
     if \<not> EVP_DecryptInit cr master_key iv
     then Inr (fp_err ''Failed to initialize EVP decrypt, error: %lu, %s'' self) else
     bindf (rd body (1 + 0x10) 0x70) (\<lambda>input.
     case EVP_DecryptUpdate cr master_key iv input of
       None \<Rightarrow> Inr (fp_err ''Failed to EVP decrypt, error: %lu, %s'' self)
     | Some out1 \<Rightarrow>
     if 0x70 < length out1 then Inl Out_of_bounds else
     (case EVP_DecryptFinal cr master_key iv input of
       None \<Rightarrow> Inr (fp_err ''EVP Final decrypt failed, error: %lu, %s'' self)
     | Some out2 \<Rightarrow>
     if 0x70 < length out1 + length out2 then Inl Out_of_bounds else
     let decrypted = out1 @ out2 in
     bindf (rd decrypted 0 0x20) (\<lambda>xb.
     bindf (rd decrypted 0x20 0x20) (\<lambda>yb.
     bindf (rd decrypted 0x40 0x20) (\<lambda>db.
     let x = BN_lebin2bn xb; y = BN_lebin2bn yb; d = BN_lebin2bn db;
         key = EC_KEY_new_by_curve_name in
     if \<not> EC_KEY_set_public_key_affine_coordinates cr x y
     then Inr (fp_err ''Failed to set public key coordinates, error: %lu, %s'' self) else
     let key = key\<lparr>pub_key := Some (x, y)\<rparr> in
     if \<not> EC_KEY_set_private_key cr key d
     then Inr (fp_err ''Failed to set private key, error: %lu, %s'' self) else
     let key = key\<lparr>priv_key := Some d\<rparr> in
     if \<not> EC_KEY_check_key cr key
     then Inr (fp_err ''Failed to check key, error: %lu, %s'' self) else
     Inr (fp_dbg ''D: %s'' (fp_dbg ''Y: %s'' (fp_dbg ''X: %s''
            (self\<lparr>private_key := Some key\<rparr>))))))))))))))))"

section \<open>The ECDH block\<close>

text \<open>
  The loop of \<open>check_ecdh\<close> over the bytes after the signature: each byte that is not
  zero is reported.
\<close>

function check_ecdh_padding ::
  "FpiByteReader \<Rightarrow> FpiDeviceVfs0097 \<Rightarrow> fault + FpiDeviceVfs0097" where
  "check_ecdh_padding reader self =
     (if 0 < fpi_byte_reader_get_remaining reader then
        (case fpi_byte_reader_get_uint8 reader of
           Inl e \<Rightarrow> Inl e
         | Inr (b, reader') \<Rightarrow>
             check_ecdh_padding reader'
               (if b \<noteq> 0 then fp_warn ''Expected zero at %d'' self else self))
      else Inr self)"
  by pat_completeness auto
termination
  by (relation "measure (\<lambda>(reader, self). rsize reader - rbyte reader)")
    (auto simp: get_uint_le_def fpi_byte_reader_get_data_def fpi_byte_reader_get_remaining_def
       bindf_def split: if_splits sum.splits)

declare check_ecdh_padding.simps [simp del]

text \<open>
  \<open>check_ecdh (self, body, size)\<close>. The public key is stored in \<open>self->ecdh_q\<close> before the
  signature is read and verified.
\<close>

definition check_ecdh ::
  "crypto \<Rightarrow> vfs0097_h \<Rightarrow> FpiDeviceVfs0097 \<Rightarrow> bytes \<Rightarrow> nat \<Rightarrow> fault + FpiDeviceVfs0097" where
  "check_ecdh cr h self body size' =
     (let KEY_SIZE = 0x90; reader = fpi_byte_reader_init body size' in
      bindf (fpi_byte_reader_set_pos reader 0x08) (\<lambda>reader.
      bindf (fpi_byte_reader_get_data reader 0x20) (\<lambda>(xb, reader).
      bindf (fpi_byte_reader_set_pos reader 0x4c) (\<lambda>reader.
      bindf (fpi_byte_reader_get_data reader 0x20) (\<lambda>(yb, reader).
      bindf (rd xb 0 0x20) (\<lambda>xbytes.
      bindf (rd yb 0 0x20) (\<lambda>ybytes.
      let x = BN_lebin2bn xbytes; y = BN_lebin2bn ybytes; key = EC_KEY_new_by_curve_name in
      if \<not> EC_KEY_set_public_key_affine_coordinates cr x y
      then Inr (fp_err ''Failed to set public key coordinates, error: %lu, %s'' self) else
      let key = key\<lparr>pub_key := Some (x, y)\<rparr>;
          self = fp_dbg ''ECDH Y: %s'' (fp_dbg ''ECDH X: %s'' self);
          self = self\<lparr>ecdh_q := Some key\<rparr> in
      bindf (fpi_byte_reader_set_pos reader KEY_SIZE) (\<lambda>reader.
      bindf (fpi_byte_reader_get_uint32_le reader) (\<lambda>(signature_length, reader).
      bindf (fpi_byte_reader_get_data reader signature_length) (\<lambda>(signature, reader).
      bindf (check_ecdh_padding reader self) (\<lambda>self.
      bindf (rd (DEVICE_KEY_X h) 0 0x20) (\<lambda>dxb.
      bindf (rd (DEVICE_KEY_Y h) 0 0x20) (\<lambda>dyb.
      let x = BN_bin2bn dxb; y = BN_bin2bn dyb; device_key = EC_KEY_new_by_curve_name in
      if \<not> EC_KEY_set_public_key_affine_coordinates cr x y
      then Inr (fp_err ''Failed to set public key coordinates, error: %lu, %s'' self) else
      let device_key = device_key\<lparr>pub_key := Some (x, y)\<rparr> in
      bindf (rd body 0 KEY_SIZE) (\<lambda>signed.
      bindf (memcpy (uninitialised SHA256_DIGEST_LENGTH) 0 (SHA256 cr signed) SHA256_DIGEST_LENGTH) (\<lambda>dgst.
      bindf (rd signature 0 signature_length) (\<lambda>sig.
      let verify_status = ECDSA_verify cr dgst sig device_key in
      Inr (if verify_status = 0 then fp_err ''Untrusted device'' self
           else if verify_status < 0
             then fp_err ''Failed to verify signature, error: %lu, %s'' self
           else self)))))))))))))))))"

section \<open>The flash container\<close>

definition init_certificate ::
  "FpiDeviceVfs0097 \<Rightarrow> bytes \<Rightarrow> nat \<Rightarrow> fault + FpiDeviceVfs0097" where
  "init_certificate self body size' =
     bindf (memcpy (g_malloc0 size') 0 body size') (\<lambda>cert.
     Inr (self\<lparr>certificate_length := size', certificate := Some cert\<rparr>))"

text \<open>The \<open>switch (id)\<close> of \<open>init_keys\<close>.\<close>

definition init_keys_block ::
  "crypto \<Rightarrow> vfs0097_h \<Rightarrow> FpiDeviceVfs0097 \<Rightarrow> nat \<Rightarrow> bytes \<Rightarrow> nat \<Rightarrow> fault + FpiDeviceVfs0097" where
  "init_keys_block cr h self id' body body_size =
     (if id' = 0 \<or> id' = 1 \<or> id' = 2 then Inr self
      else if id' = 3 then init_certificate self body body_size
      else if id' = 4 then init_private_key cr h self body body_size
      else if id' = 6 then check_ecdh cr h self body body_size
      else Inr (fp_warn ''Unhandled block id %04x (%d bytes)'' self))"

text \<open>
  The \<open>while\<close> loop of \<open>init_keys\<close>. The result is the reader and the device structure
  when the loop is left.
\<close>

function init_keys_loop ::
  "crypto \<Rightarrow> vfs0097_h \<Rightarrow> FpiByteReader \<Rightarrow> FpiDeviceVfs0097
     \<Rightarrow> fault + (FpiByteReader \<times> FpiDeviceVfs0097)" where
  "init_keys_loop cr h reader self =
     (if 0 < fpi_byte_reader_get_remaining reader then
        (case fpi_byte_reader_get_uint16_le reader of Inl e \<Rightarrow> Inl e | Inr (id', reader1) \<Rightarrow>
        (case fpi_byte_reader_get_uint16_le reader1 of Inl e \<Rightarrow> Inl e | Inr (body_size, reader2) \<Rightarrow>
        if id' = 0xffff then Inr (reader2, self) else
        (case fpi_byte_reader_get_data reader2 SHA256_DIGEST_LENGTH of Inl e \<Rightarrow> Inl e | Inr (hash, reader3) \<Rightarrow>
        (case fpi_byte_reader_get_data reader3 body_size of Inl e \<Rightarrow> Inl e | Inr (body, reader4) \<Rightarrow>
        (case rd body 0 body_size of Inl e \<Rightarrow> Inl e | Inr body_bytes \<Rightarrow>
        (case memcpy (uninitialised SHA256_DIGEST_LENGTH) 0 (SHA256 cr body_bytes) SHA256_DIGEST_LENGTH
           of Inl e \<Rightarrow> Inl e | Inr calc_hash \<Rightarrow>
        (case rd hash 0 SHA256_DIGEST_LENGTH of Inl e \<Rightarrow> Inl e | Inr stored \<Rightarrow>
        if calc_hash \<noteq> stored
        then init_keys_loop cr h reader4 (fp_warn ''Hash mismatch for block %d'' self)
        else
        (case init_keys_block cr h self id' body body_size of Inl e \<Rightarrow> Inl e | Inr self' \<Rightarrow>
         init_keys_loop cr h reader4 self'))))))))
      else Inr (reader, self))"
  by pat_completeness auto
termination
  by (relation "measure (\<lambda>(cr, h, reader, self). rsize reader - rbyte reader)")
    (auto simp: get_uint_le_def fpi_byte_reader_get_data_def fpi_byte_reader_get_remaining_def
       bindf_def split: if_splits sum.splits)

declare init_keys_loop.simps [simp del]

text \<open>
  \<open>init_keys (dev)\<close>: the header of the container, the assertion on the declared size,
  and the loop over the blocks. The reader takes the \<open>gsize\<close> length of the response as a
  \<open>guint\<close>.
\<close>

definition init_keys_reader ::
  "crypto \<Rightarrow> vfs0097_h \<Rightarrow> FpiDeviceVfs0097 \<Rightarrow> fault + (FpiByteReader \<times> FpiDeviceVfs0097)" where
  "init_keys_reader cr h self =
     bindf (deref (buffer self)) (\<lambda>buf.
     let reader = fpi_byte_reader_init buf (guint32 (buffer_length self)) in
     bindf (fpi_byte_reader_skip reader 2) (\<lambda>reader.
     bindf (fpi_byte_reader_get_uint32_le reader) (\<lambda>(size', reader).
     bindf (fpi_byte_reader_skip reader 2) (\<lambda>reader.
     if fpi_byte_reader_get_remaining reader \<noteq> size' then Inl Assertion_failed
     else init_keys_loop cr h reader self))))"

definition init_keys :: "crypto \<Rightarrow> vfs0097_h \<Rightarrow> FpiDeviceVfs0097 \<Rightarrow> fault + FpiDeviceVfs0097" where
  "init_keys cr h self = bindf (init_keys_reader cr h self) (\<lambda>(reader, self'). Inr self')"

section \<open>The state machines\<close>

datatype GError = FP_DEVICE_ERROR_GENERAL string | FP_DEVICE_ERROR_PROTO | USB_ERROR string

text \<open>
  Modelled from the spec: the enumeration of the states (vfs0097.h) has no source here.
  The specification lists the states of the initialisation machine in their order.
\<close>

datatype init_sm =
    SEND_INIT_1 | CHECK_INITIALIZED | SEND_INIT_2 | GET_PARTITION_HEADER | SEND_INIT_4
  | GET_FLASH_INFO | READ_FLASH_TLS_DATA | INIT_KEYS | HANDSHAKE

definition INIT_SM_STATES :: "init_sm list" where
  "INIT_SM_STATES =
     [SEND_INIT_1, CHECK_INITIALIZED, SEND_INIT_2, GET_PARTITION_HEADER, SEND_INIT_4,
      GET_FLASH_INFO, READ_FLASH_TLS_DATA, INIT_KEYS, HANDSHAKE]"

text \<open>
  What a state handler asks of its machine before it returns: \<open>exec_command\<close> with a
  payload, \<open>do_handshake\<close>, \<open>fpi_ssm_next_state\<close>, \<open>fpi_ssm_mark_failed\<close> with an error,
  or nothing at all.
\<close>

datatype ssm_call =
    Exec_command bytes | Do_handshake | Next_state | Mark_failed GError | No_call

text \<open>
  \<open>init_ssm (ssm, dev)\<close>, by the current state. In the state \<open>CHECK_INITIALIZED\<close> the
  branch of a 38-byte response with last byte \<open>0x07\<close> has no \<open>break\<close> and runs into the
  code of \<open>SEND_INIT_2\<close>; the other two branches end in \<open>break\<close>. The machine only
  calls the handler with a state of the enumeration, so \<open>default\<close> is not reached.
  \<open>sensor_is_not_initialized\<close> is the format string of the error message.
\<close>

definition sensor_is_not_initialized :: string where
  "sensor_is_not_initialized =
     ''Sensor is not initialized, init byte is 0x%02x '' @
     ''(should be 0x07 on initialized devices, 0x02 otherwise)'' @ [CHR 0x0A] @
     ''This is a driver in alpha state and the device needs to be setup in a VirtualBox '' @
     ''instance running Windows, or with a native Windows installation first.''"

definition init_ssm ::
  "crypto \<Rightarrow> vfs0097_h \<Rightarrow> init_sm \<Rightarrow> FpiDeviceVfs0097 \<Rightarrow> fault + (ssm_call \<times> FpiDeviceVfs0097)" where
  "init_ssm cr h cur_state self =
     (case cur_state of
        SEND_INIT_1 \<Rightarrow> Inr (Exec_command (INIT_SEQUENCE_MSG1 h), self)
      | CHECK_INITIALIZED \<Rightarrow>
          if buffer_length self = 38 then
            bindf (deref (buffer self)) (\<lambda>buf.
            bindf (rd buf (buffer_length self - 1) 1) (\<lambda>last_byte.
            if last_byte \<noteq> [0x07]
            then Inr (Mark_failed (FP_DEVICE_ERROR_GENERAL ''Device is not initialized''),
                   fp_err sensor_is_not_initialized self)
            else Inr (Exec_command (INIT_SEQUENCE_MSG2 h), self)))
          else Inr (No_call, fp_warn ''Unknown reply at init'' self)
      | SEND_INIT_2 \<Rightarrow> Inr (Exec_command (INIT_SEQUENCE_MSG2 h), self)
      | GET_PARTITION_HEADER \<Rightarrow> Inr (Exec_command (INIT_SEQUENCE_MSG3 h), self)
      | SEND_INIT_4 \<Rightarrow> Inr (Exec_command (INIT_SEQUENCE_MSG4 h), self)
      | GET_FLASH_INFO \<Rightarrow> Inr (Exec_command (INIT_SEQUENCE_MSG5 h), self)
      | READ_FLASH_TLS_DATA \<Rightarrow> Inr (Exec_command (INIT_SEQUENCE_MSG6 h), self)
      | INIT_KEYS \<Rightarrow> bindf (init_keys cr h self) (\<lambda>self'. Inr (Next_state, self'))
      | HANDSHAKE \<Rightarrow> Inr (Do_handshake, self))"

text \<open>\<open>handshake_ssm\<close>: each of its three states goes to the next one.\<close>

datatype tls_handshake_sm =
    TLS_HANDSHAKE_SM_CLIENT_HELLO | TLS_HANDSHAKE_SM_GENERATE_CERTIFICATE
  | TLS_HANDSHAKE_SM_CLIENT_FINISHED

definition handshake_ssm :: "tls_handshake_sm \<Rightarrow> ssm_call" where
  "handshake_ssm cur_state = Next_state"

text \<open>
  Modelled from the spec: the USB transport and the state machine framework
  (fpi-usb-transfer, fpi-ssm) have no source here. One command exchange is a bulk write
  of the request and a bulk read of the response; either may fail with an error, and a
  short read is not an error. The answer of the device to the \<open>n\<close>-th command is an
  \<open>exchange\<close>.
\<close>

datatype exchange = Write_error string | Read_error string | Response bytes

text \<open>
  \<open>exec_command\<close> with its machine \<open>exec_command_ssm\<close> and the two transfer callbacks: a
  failed transfer is logged and fails the machine with the error; a response is read
  into \<open>self->buffer\<close> (at most \<open>VFS_USB_BUFFER_SIZE\<close> bytes) and its length is stored in
  \<open>self->buffer_length\<close>. With \<open>self->buffer\<close> \<open>NULL\<close>, \<open>async_read\<close> reads into a buffer of
  its own.
\<close>

definition exec_command ::
  "vfs0097_h \<Rightarrow> exchange \<Rightarrow> FpiDeviceVfs0097 \<Rightarrow> fault + (GError option \<times> FpiDeviceVfs0097)" where
  "exec_command h ex self =
     (case ex of
        Write_error m \<Rightarrow> Inr (Some (USB_ERROR m), fp_err ''USB write transfer: %s'' self)
      | Read_error m \<Rightarrow>
          Inr (Some (USB_ERROR m), fp_err ''USB read transfer on endpoint %d: %s'' self)
      | Response resp \<Rightarrow>
          (let actual = take (VFS_USB_BUFFER_SIZE h) resp in
           case buffer self of
             None \<Rightarrow> Inr (None, self\<lparr>buffer_length := length actual\<rparr>)
           | Some buf \<Rightarrow>
               bindf (memcpy buf 0 actual (length actual)) (\<lambda>buf'.
               Inr (None, self\<lparr>buffer := Some buf', buffer_length := length actual\<rparr>))))"

text \<open>
  Modelled from the spec: the run of the initialisation machine from a list of states
  that are still to come. The handler of the current state is called. A command exchange
  that succeeds, the handshake and \<open>fpi_ssm_next_state\<close> lead to the next state; a failed
  exchange and \<open>fpi_ssm_mark_failed\<close> end the machine with the error; after the last state
  the machine is complete. A handler that returns without any call leaves the machine
  in its state with nothing pending. The result is the status, the state the machine
  stopped in, the number of commands sent and the device structure.
\<close>

datatype ssm_status = SSM_COMPLETED | SSM_FAILED GError | SSM_WAITING

fun init_ssm_run ::
  "crypto \<Rightarrow> vfs0097_h \<Rightarrow> (nat \<Rightarrow> bytes \<Rightarrow> exchange) \<Rightarrow> init_sm list \<Rightarrow> nat \<Rightarrow> FpiDeviceVfs0097
     \<Rightarrow> fault + (ssm_status \<times> init_sm option \<times> nat \<times> FpiDeviceVfs0097)" where
  "init_ssm_run cr h usb [] n self = Inr (SSM_COMPLETED, None, n, self)"
| "init_ssm_run cr h usb (cur_state # rest) n self =
     (case init_ssm cr h cur_state self of
        Inl e \<Rightarrow> Inl e
      | Inr (Exec_command msg, self1) \<Rightarrow>
          (case exec_command h (usb n msg) self1 of
             Inl e \<Rightarrow> Inl e
           | Inr (Some err, self2) \<Rightarrow> Inr (SSM_FAILED err, Some cur_state, Suc n, self2)
           | Inr (None, self2) \<Rightarrow> init_ssm_run cr h usb rest (Suc n) self2)
      | Inr (Do_handshake, self1) \<Rightarrow> init_ssm_run cr h usb rest n self1
      | Inr (Next_state, self1) \<Rightarrow> init_ssm_run cr h usb rest n self1
      | Inr (Mark_failed err, self1) \<Rightarrow> Inr (SSM_FAILED err, Some cur_state, n, self1)
      | Inr (No_call, self1) \<Rightarrow> Inr (SSM_WAITING, Some cur_state, n, self1))"

declare init_ssm_run.simps [simp del]

text \<open>
  \<open>dev_open_callback\<close> passes the error of the machine, or none, to
  \<open>fpi_device_open_complete\<close>. A machine that is waiting has not called it.
\<close>

datatype open_report = Open_complete "GError option" | Open_not_complete

definition dev_open_callback :: "ssm_status \<Rightarrow> open_report" where
  "dev_open_callback st =
     (case st of
        SSM_COMPLETED \<Rightarrow> Open_complete None
      | SSM_FAILED err \<Rightarrow> Open_complete (Some err)
      | SSM_WAITING \<Rightarrow> Open_not_complete)"

text \<open>
  \<open>dev_open\<close>. \<open>claim\<close> is the error of the first of the USB reset, the configuration,
  the interface claim and the NSS initialisation that fails, if any.
\<close>

definition dev_open ::
  "crypto \<Rightarrow> vfs0097_h \<Rightarrow> GError option \<Rightarrow> (nat \<Rightarrow> bytes \<Rightarrow> exchange) \<Rightarrow> FpiDeviceVfs0097
     \<Rightarrow> fault + (open_report \<times> FpiDeviceVfs0097)" where
  "dev_open cr h claim usb self =
     (if seed self = None
      then Inr (Open_complete (Some (FP_DEVICE_ERROR_GENERAL ''Seed value is not initialized'')), self)
      else case claim of
        Some err \<Rightarrow> Inr (Open_complete (Some err), self)
      | None \<Rightarrow>
          bindf (init_ssm_run cr h usb INIT_SM_STATES 0
                   (self\<lparr>buffer := Some (g_malloc0 (VFS_USB_BUFFER_SIZE h))\<rparr>))
            (\<lambda>(st, cur_state, n, self'). Inr (dev_open_callback st, self')))"

text \<open>\<open>clear_data\<close> frees the five pointers and sets them to \<open>NULL\<close>; \<open>dev_close\<close> calls it.\<close>

definition clear_data :: "FpiDeviceVfs0097 \<Rightarrow> FpiDeviceVfs0097" where
  "clear_data self =
     self\<lparr>seed := None, buffer := None, certificate := None, private_key := None,
          ecdh_q := None\<rparr>"

definition dev_close :: "FpiDeviceVfs0097 \<Rightarrow> FpiDeviceVfs0097" where
  "dev_close self = clear_data self"

text \<open>
  \<open>fpi_device_vfs0097_init\<close>: the array \<open>seed\<close> is initialised with the two adjacent
  string literals \<open>"VirtualBox\0"\<close> and \<open>"0"\<close>, which end with the terminating zero of
  the string; \<open>G_N_ELEMENTS\<close> counts all its bytes.
\<close>

definition seed_literal :: bytes where
  "seed_literal =
     map of_char ''VirtualBox'' @ [0] @ map of_char ''0'' @ [0]"

definition fpi_device_vfs0097_init :: "FpiDeviceVfs0097 \<Rightarrow> FpiDeviceVfs0097" where
  "fpi_device_vfs0097_init self =
     (let seed' = seed_literal in
      self\<lparr>seed_length := length seed', seed := Some seed',
           messages := messages self @ [(LOG_DEBUG, ''Initialized seed value: %s'')]\<rparr>)"

section \<open>Notions for the statements\<close>

text \<open>
  The bytes that a reader has left, and the warnings of the loop of \<open>check_ecdh\<close> over
  such bytes: one for each byte that is not zero.
\<close>

definition remaining_bytes :: "FpiByteReader \<Rightarrow> bytes" where
  "remaining_bytes r = take (rsize r - rbyte r) (drop (rbyte r) (rdata r))"

definition padding_warnings :: "bytes \<Rightarrow> message list" where
  "padding_warnings bs =
     map (\<lambda>b. (LOG_WARNING, ''Expected zero at %d'')) (filter (\<lambda>b. b \<noteq> 0) bs)"

text \<open>
  The container as the specification describes it. A block is an identifier, a stored
  hash and a body; its bytes are the identifier and the length of the body as
  little-endian 16-bit numbers, the hash and the body. The end marker is the identifier
  \<open>0xffff\<close> with a length field, followed by any bytes.
\<close>

datatype block = Block (block_id: nat) (block_hash: bytes) (block_body: bytes)

definition le16 :: "nat \<Rightarrow> bytes" where
  "le16 n = [of_nat (n mod 256), of_nat (n div 256 mod 256)]"

definition le32 :: "nat \<Rightarrow> bytes" where
  "le32 n = [of_nat (n mod 256), of_nat (n div 256 mod 256),
             of_nat (n div 65536 mod 256), of_nat (n div 16777216 mod 256)]"

definition block_bytes :: "block \<Rightarrow> bytes" where
  "block_bytes b =
     le16 (block_id b) @ le16 (length (block_body b)) @ block_hash b @ block_body b"

definition blocks_bytes :: "block list \<Rightarrow> bytes" where
  "blocks_bytes bs = concat (map block_bytes bs)"

text \<open>
  A container: two bytes that are skipped, the length of the payload as a little-endian
  32-bit number, two more bytes that are skipped, and the payload, which is a sequence
  of blocks followed by \<open>fin\<close>: nothing, or an end marker and what follows it.
\<close>

definition container_bytes :: "bytes \<Rightarrow> bytes \<Rightarrow> block list \<Rightarrow> bytes \<Rightarrow> bytes" where
  "container_bytes skip1 skip2 bs fin =
     skip1 @ le32 (length (blocks_bytes bs @ fin)) @ skip2 @ blocks_bytes bs @ fin"

definition block_ok :: "block \<Rightarrow> bool" where
  "block_ok b \<longleftrightarrow>
     block_id b < 0xffff \<and> length (block_hash b) = 32 \<and> length (block_body b) < 65536"

definition end_marker :: "bytes \<Rightarrow> bool" where
  "end_marker fin \<longleftrightarrow> 4 \<le> length fin \<and> take 2 fin = [0xff, 0xff]"

text \<open>
  What the blocks of a container do to the device, in the words of the specification:
  a block whose body does not have the stored hash is skipped with a warning, and the
  next block is looked at; any other block is handed to the function of its identifier.
  \<open>mem\<close> is the memory behind the last block, up to the end of the buffer: the body is
  handed over as a pointer.
\<close>

fun blocks_effect ::
  "crypto \<Rightarrow> vfs0097_h \<Rightarrow> block list \<Rightarrow> bytes \<Rightarrow> FpiDeviceVfs0097 \<Rightarrow> fault + FpiDeviceVfs0097" where
  "blocks_effect cr h [] mem self = Inr self"
| "blocks_effect cr h (b # bs) mem self =
     (if SHA256 cr (block_body b) \<noteq> block_hash b
      then blocks_effect cr h bs mem (fp_warn ''Hash mismatch for block %d'' self)
      else bindf (init_keys_block cr h self (block_id b)
                    (block_body b @ blocks_bytes bs @ mem) (length (block_body b)))
             (\<lambda>self'. blocks_effect cr h bs mem self'))"

section \<open>Sample data\<close>

text \<open>
  A stand-in for the cryptographic library with functions that can be computed by hand:
  a digest is the length of the data (as a byte) followed by the data (for the HMAC, the
  data and then the key), padded with zeros and cut to 32 bytes; the cipher is the
  identity, every key is accepted, and a
  signature is valid when it starts with the first byte of the digest.
\<close>

definition toy_crypto :: crypto where
  "toy_crypto = \<lparr>
      HMAC = (\<lambda>k d. take 32 (of_nat (length d) # d @ k @ replicate 32 0)),
      SHA256 = (\<lambda>d. take 32 (of_nat (length d) # d @ replicate 32 0)),
      EVP_DecryptInit = (\<lambda>k iv. True),
      EVP_DecryptUpdate = (\<lambda>k iv ct. Some ct),
      EVP_DecryptFinal = (\<lambda>k iv ct. Some []),
      EC_KEY_set_public_key_affine_coordinates = (\<lambda>x y. True),
      EC_KEY_set_private_key = (\<lambda>key d. True),
      EC_KEY_check_key = (\<lambda>key. True),
      ECDSA_verify = (\<lambda>dg sg key. if take 1 sg = take 1 dg then 1 else 0) \<rparr>"

text \<open>Constants of the same kind, and a device structure as the object system creates it.\<close>

definition toy_h :: vfs0097_h where
  "toy_h = \<lparr>
      PRE_KEY = [1, 2], LABEL = [3], LABEL_SIGN = [4], SIGN_KEY = [5, 6],
      DEVICE_KEY_X = replicate 32 1, DEVICE_KEY_Y = replicate 32 2,
      INIT_SEQUENCE_MSG1 = [1], INIT_SEQUENCE_MSG2 = [2], INIT_SEQUENCE_MSG3 = [3],
      INIT_SEQUENCE_MSG4 = [4], INIT_SEQUENCE_MSG5 = [5], INIT_SEQUENCE_MSG6 = [6],
      VFS_USB_BUFFER_SIZE = 512 \<rparr>"

definition new_device :: FpiDeviceVfs0097 where
  "new_device = \<lparr>
      seed = None, seed_length = 0, buffer = None, buffer_length = 0,
      certificate = None, certificate_length = 0, private_key = None, ecdh_q = None,
      messages = [] \<rparr>"

definition toy_device :: FpiDeviceVfs0097 where
  "toy_device = fpi_device_vfs0097_init new_device"

text \<open>
  A private key block for these: the prefix, sixteen bytes for the initialisation
  vector, \<open>0x70\<close> bytes that hold \<open>X = 7\<close>, \<open>Y = 8\<close> and \<open>D = 5\<close>, and a signature.
  \<open>toy_master_key\<close> and \<open>toy_validation_key\<close> are the two keys that \<open>toy_device\<close> derives.
  \<open>toy_signature_all\<close> is the toy HMAC, under the validation key, of the
  128 bytes between the prefix and the signature; \<open>toy_signature_tail\<close> is the toy HMAC of
  the last 112 of them, without the sixteen bytes of the initialisation vector.
\<close>

definition toy_master_key :: bytes where
  "toy_master_key =
     [46, 14, 3, 86, 105, 114, 116, 117, 97, 108, 66, 111, 120, 0, 48, 0, 1, 2] @ replicate 14 0"

definition toy_validation_key :: bytes where
  "toy_validation_key =
     [35, 3, 4, 5, 6, 46, 14, 3, 86, 105, 114, 116, 117, 97, 108, 66, 111, 120, 0, 48, 0, 1, 2]
     @ replicate 9 0"

definition toy_plaintext :: bytes where
  "toy_plaintext =
     [7] @ replicate 31 0 @ [8] @ replicate 31 0 @ [5] @ replicate 31 0 @ replicate 16 0"

definition toy_key_body :: "bytes \<Rightarrow> bytes" where
  "toy_key_body sig = [2] @ replicate 16 9 @ toy_plaintext @ sig"

definition toy_signature_all :: bytes where
  "toy_signature_all = [128] @ replicate 16 9 @ [7] @ replicate 14 0"

definition toy_signature_tail :: bytes where
  "toy_signature_tail = [112, 7] @ replicate 30 0"

text \<open>
  A device that answers the first command with the given bytes and every later command
  with an empty response.
\<close>

definition toy_usb :: "bytes \<Rightarrow> nat \<Rightarrow> bytes \<Rightarrow> exchange" where
  "toy_usb first n request = (if n = 0 then Response first else Response [])"

text \<open>
  An ECDH block: the byte \<open>x\<close> as X at offset \<open>0x08\<close> and \<open>Y = 8\<close> at offset \<open>0x4c\<close> of the signed
  region of \<open>0x90\<close> bytes, the length 4 of the signature, the signature, and four more
  bytes of which one is not zero. The toy digest of the signed region starts with
  \<open>0x90\<close>, so \<open>0x90, 0, 0, 0\<close> is a valid toy signature of it. \<open>toy_ecdh_device\<close> is \<open>toy_device\<close>
  after \<open>check_ecdh\<close> has stored the key with \<open>X = 7\<close>.
\<close>

definition toy_ecdh_body :: "byte \<Rightarrow> bytes \<Rightarrow> bytes" where
  "toy_ecdh_body x sig =
     replicate 8 0 @ ([x] @ replicate 31 0) @ replicate 36 0 @ ([8] @ replicate 31 0)
     @ replicate 36 0 @ [4, 0, 0, 0] @ sig @ [0, 0, 1, 0]"

definition toy_ecdh_device :: FpiDeviceVfs0097 where
  "toy_ecdh_device =
     toy_device\<lparr>ecdh_q := Some \<lparr> pub_key = Some (7, 8), priv_key = None \<rparr>,
       messages := messages toy_device @
         [(LOG_DEBUG, ''ECDH X: %s''), (LOG_DEBUG, ''ECDH Y: %s''),
          (LOG_WARNING, ''Expected zero at %d'')]\<rparr>"

text \<open>
  Blocks for a container: a certificate of two bytes with its toy hash, the private key
  block with a hash that is not the hash of its body, and the ECDH block with its toy
  hash. \<open>toy_end\<close> is an end marker followed by four bytes. \<open>toy_flash\<close> is \<open>toy_device\<close>
  with a container of such blocks in a response buffer that is sixteen bytes longer.
\<close>

definition toy_certificate_block :: block where
  "toy_certificate_block = Block 3 ([2, 0xAA, 0xBB] @ replicate 29 0) [0xAA, 0xBB]"

definition toy_corrupted_block :: block where
  "toy_corrupted_block = Block 4 ([1] @ replicate 31 0) (toy_key_body toy_signature_all)"

definition toy_ecdh_block :: "byte \<Rightarrow> block" where
  "toy_ecdh_block x =
     Block 6 ([156] @ replicate 8 0 @ [x] @ replicate 22 0) (toy_ecdh_body x [0x90, 0, 0, 0])"

definition toy_end :: bytes where
  "toy_end = [0xff, 0xff, 0, 0, 1, 2, 3, 4]"

definition toy_flash :: "block list \<Rightarrow> bytes \<Rightarrow> FpiDeviceVfs0097" where
  "toy_flash bs fin =
     toy_device\<lparr>buffer := Some (container_bytes [0, 0] [0, 0] bs fin @ replicate 16 0),
                buffer_length := length (container_bytes [0, 0] [0, 0] bs fin)\<rparr>"

text \<open>
  A device with both keys set and a container of a certificate block and a private key
  block with a wrong hash in its buffer.
\<close>

definition toy_keyed_flash :: FpiDeviceVfs0097 where
  "toy_keyed_flash =
     (toy_flash [toy_certificate_block, toy_corrupted_block] toy_end)
       \<lparr>private_key := Some \<lparr> pub_key = Some (7, 8), priv_key = Some 5 \<rparr>,
        ecdh_q := Some \<lparr> pub_key = Some (9, 8), priv_key = None \<rparr>\<rparr>"

text \<open>A device whose buffer declares nine bytes of payload and holds eight.\<close>

definition toy_wrong_size :: FpiDeviceVfs0097 where
  "toy_wrong_size =
     toy_device\<lparr>buffer := Some ([0, 0] @ [9, 0, 0, 0] @ [0, 0] @ toy_end),
                buffer_length := 16\<rparr>"

section \<open>Basic facts\<close>

lemma bindf_Inr [simp]: "bindf (Inr x) f = f x"
  by (simp add: bindf_def)

lemma bindf_Inl [simp]: "bindf (Inl e) f = Inl e"
  by (simp add: bindf_def)

lemma guint32_small: "n < 2 ^ 32 \<Longrightarrow> guint32 n = n"
  by (simp add: guint32_def)

lemma digest_sized_HMAC: "digest_sized cr \<Longrightarrow> length (HMAC cr k d) = 32"
  by (simp add: digest_sized_def)

lemma digest_sized_SHA256: "digest_sized cr \<Longrightarrow> length (SHA256 cr d) = 32"
  by (simp add: digest_sized_def)

lemma digest_sized_toy: "digest_sized toy_crypto"
  by (auto simp: digest_sized_def toy_crypto_def)

lemma deref_Some [simp]: "deref (Some x) = Inr x"
  by (simp add: deref_def)

lemma deref_None [simp]: "deref None = Inl Null_pointer"
  by (simp add: deref_def)

lemma fp_log_fields [simp]:
  "seed (fp_log l m self) = seed self"
  "seed_length (fp_log l m self) = seed_length self"
  "buffer (fp_log l m self) = buffer self"
  "buffer_length (fp_log l m self) = buffer_length self"
  "certificate (fp_log l m self) = certificate self"
  "certificate_length (fp_log l m self) = certificate_length self"
  "private_key (fp_log l m self) = private_key self"
  "ecdh_q (fp_log l m self) = ecdh_q self"
  "messages (fp_log l m self) = messages self @ [(l, m)]"
  by (simp_all add: fp_log_def)

lemma guint16_length: "33 \<le> n \<Longrightarrow> n < 65536 \<Longrightarrow> nat ((int n - 1 - 32) mod 2 ^ 32) = n - 33"
proof -
  assume a: "33 \<le> n" "n < 65536"
  then have "(int n - 1 - 32) mod 2 ^ 32 = int n - 33"
    by simp
  then show ?thesis using a by simp
qed

lemma HMAC_SHA256_fresh:
  "digest_sized cr \<Longrightarrow> HMAC_SHA256 cr k d (uninitialised 32) = Inr (HMAC cr k d)"
  by (simp add: HMAC_SHA256_def memcpy_def uninitialised_def digest_sized_HMAC)

lemma toy_HMAC: "HMAC toy_crypto k d = take 32 (of_nat (length d) # d @ k @ replicate 32 0)"
  by (simp add: toy_crypto_def)

section \<open>The pseudorandom function\<close>

lemma P_blocks_upt:
  "concat (map (\<lambda>i. HMAC cr secret (A_hash cr secret lseed i @ lseed)) [Suc i..<Suc (i + n)])
     = P_blocks cr secret lseed (A_hash cr secret lseed (Suc i)) n"
proof (induction n arbitrary: i)
  case 0
  then show ?case by simp
next
  case (Suc n)
  have "[Suc i..<Suc (i + Suc n)] = Suc i # [Suc (Suc i)..<Suc (Suc i + n)]"
    by (simp add: upt_conv_Cons)
  then show ?case using Suc.IH [of "Suc i"] by simp
qed

lemma P_hash_blocks:
  "P_hash cr secret lseed n = P_blocks cr secret lseed (HMAC cr secret lseed) n"
  using P_blocks_upt [of cr secret lseed 0 n] by (simp add: P_hash_def)

lemma length_P_blocks:
  "digest_sized cr \<Longrightarrow> length (P_blocks cr secret lseed a n) = 32 * n"
  by (induction n arbitrary: a) (simp_all add: digest_sized_HMAC)

text \<open>One iteration of the loop, with every buffer access inside its buffer.\<close>

lemma PRF_iteration:
  assumes ds: "digest_sized cr"
    and lenA: "length A = 32 + length label + length sd"
    and fit: "32 + length label + length sd < 2 ^ 32"
    and out: "len \<le> length out"
    and pos: "pos < len"
  shows "PRF_loop cr secret label sd len A out pos =
         PRF_loop cr secret label sd len
           (HMAC cr secret (take 32 A) @ label @ sd)
           (take pos out @ take (min (len - pos) 32) (HMAC cr secret (take 32 A @ label @ sd))
              @ drop (pos + min (len - pos) 32) out)
           (pos + min (len - pos) 32)"
proof -
  note h = digest_sized_HMAC [OF ds]
  have A1: "memcpy A 32 label (length label) = Inr (take 32 A @ label @ drop (32 + length label) A)"
    using lenA by (simp add: memcpy_def)
  have A2: "memcpy (take 32 A @ label @ drop (32 + length label) A) (32 + length label) sd (length sd)
      = Inr (take 32 A @ label @ sd)"
    using lenA by (simp add: memcpy_def)
  have d: "rd (take 32 A @ label @ sd) 0 (guint32 (32 + length label + length sd))
      = Inr (take 32 A @ label @ sd)"
    using lenA fit by (simp add: rd_def guint32_small)
  have P: "HMAC_SHA256 cr secret (take 32 A @ label @ sd) (uninitialised 32)
      = Inr (HMAC cr secret (take 32 A @ label @ sd))"
    by (simp add: HMAC_SHA256_def memcpy_def uninitialised_def h)
  have a: "rd (take 32 A @ label @ sd) 0 32 = Inr (take 32 A)"
    using lenA by (simp add: rd_def)
  have A3: "HMAC_SHA256 cr secret (take 32 A) (take 32 A @ label @ sd)
      = Inr (HMAC cr secret (take 32 A) @ label @ sd)"
    using lenA by (simp add: HMAC_SHA256_def memcpy_def h)
  have o: "memcpy out pos (HMAC cr secret (take 32 A @ label @ sd)) (min (len - pos) 32)
      = Inr (take pos out @ take (min (len - pos) 32) (HMAC cr secret (take 32 A @ label @ sd))
              @ drop (pos + min (len - pos) 32) out)"
    using out pos by (simp add: memcpy_def h)
  show ?thesis
    by (subst PRF_loop.simps) (simp add: pos A1 A2 d P a A3 o Let_def)
qed

text \<open>
  The loop invariant: the bytes before \<open>pos\<close> are written, the first 32 bytes of \<open>A\<close>
  hold the current \<open>A(i)\<close>, and the loop adds the blocks generated from it up to \<open>len\<close>.
\<close>

lemma PRF_loop_blocks:
  assumes ds: "digest_sized cr"
    and fit: "32 + length label + length sd < 2 ^ 32"
  shows "length A = 32 + length label + length sd \<Longrightarrow> len \<le> length out \<Longrightarrow> pos \<le> len \<Longrightarrow>
         len - pos \<le> 32 * n \<Longrightarrow>
         PRF_loop cr secret label sd len A out pos =
         Inr (take pos out @ take (len - pos) (P_blocks cr secret (label @ sd) (take 32 A) n)
              @ drop len out)"
proof (induction n arbitrary: A out pos)
  case 0
  then have "pos = len" by simp
  then show ?case by (subst PRF_loop.simps) simp
next
  case (Suc n)
  note h = digest_sized_HMAC [OF ds]
  show ?case
  proof (cases "pos < len")
    case False
    then have "pos = len" using Suc.prems by simp
    then show ?thesis by (subst PRF_loop.simps) simp
  next
    case True
    let ?P = "HMAC cr secret (take 32 A @ label @ sd)"
    let ?size = "min (len - pos) 32"
    let ?A = "HMAC cr secret (take 32 A) @ label @ sd"
    let ?out = "take pos out @ take ?size ?P @ drop (pos + ?size) out"
    have step: "PRF_loop cr secret label sd len A out pos =
        PRF_loop cr secret label sd len ?A ?out (pos + ?size)"
      using ds Suc.prems(1) fit Suc.prems(2) True by (rule PRF_iteration)
    have lenA: "length ?A = 32 + length label + length sd"
      by (simp add: h)
    have lenout: "len \<le> length ?out"
      using Suc.prems(2) True by (simp add: h)
    have pos': "pos + ?size \<le> len"
      using True by simp
    have rest: "len - (pos + ?size) \<le> 32 * n"
      using Suc.prems(4) by simp
    have IH: "PRF_loop cr secret label sd len ?A ?out (pos + ?size) =
        Inr (take (pos + ?size) ?out
             @ take (len - (pos + ?size)) (P_blocks cr secret (label @ sd) (take 32 ?A) n)
             @ drop len ?out)"
      using lenA lenout pos' rest by (rule Suc.IH)
    have t1: "take (pos + ?size) ?out = take pos out @ take ?size ?P"
      using Suc.prems(2) True by (simp add: h)
    have t2: "drop len ?out = drop len out"
      using Suc.prems(2) True by (simp add: h)
    have t3: "take 32 ?A = HMAC cr secret (take 32 A)"
      by (simp add: h)
    have t4: "take (len - pos) (?P @ P_blocks cr secret (label @ sd) (HMAC cr secret (take 32 A)) n)
        = take ?size ?P @ take (len - (pos + ?size)) (P_blocks cr secret (label @ sd) (HMAC cr secret (take 32 A)) n)"
      by (simp add: h min_def)
    show ?thesis
      unfolding step IH t1 t2 t3 using t4 by simp
  qed
qed

text \<open>The code before the loop: \<open>A(0)\<close> is copied into \<open>A\<close> and replaced by \<open>A(1)\<close>.\<close>

lemma PRF_SHA256_start:
  assumes ds: "digest_sized cr"
    and fit: "32 + length label + length sd < 2 ^ 32"
  shows "PRF_SHA256 cr secret label sd out len =
         PRF_loop cr secret label sd len
           (HMAC cr secret (label @ sd) @ drop 32 (label @ sd @ replicate 32 0)) out 0"
proof -
  note h = digest_sized_HMAC [OF ds]
  have g1: "guint32 (32 + length label + length sd) = 32 + length label + length sd"
    using fit by (rule guint32_small)
  have g2: "guint32 (length label + length sd) = length label + length sd"
    using fit by (simp add: guint32_small)
  show ?thesis
    unfolding PRF_SHA256_def Let_def g1 g2
    by (simp add: memcpy_def rd_def HMAC_SHA256_def g_malloc0_def h)
qed

lemma PRF_SHA256_eq:
  assumes ds: "digest_sized cr"
    and fit: "32 + length label + length sd < 2 ^ 32"
    and out: "len \<le> length out"
    and n: "len \<le> 32 * n"
  shows "PRF_SHA256 cr secret label sd out len =
         Inr (take len (P_hash cr secret (label @ sd) n) @ drop len out)"
proof -
  note h = digest_sized_HMAC [OF ds]
  let ?A = "HMAC cr secret (label @ sd) @ drop 32 (label @ sd @ replicate 32 0)"
  have lenA: "length ?A = 32 + length label + length sd"
    by (simp add: h)
  have "PRF_loop cr secret label sd len ?A out 0 =
      Inr (take 0 out @ take (len - 0) (P_blocks cr secret (label @ sd) (take 32 ?A) n)
           @ drop len out)"
    using ds fit lenA out _ _ by (rule PRF_loop_blocks) (use n in simp_all)
  then show ?thesis
    using PRF_SHA256_start [OF ds fit, of secret out len]
    by (simp add: h P_hash_blocks)
qed

lemma PRF_SHA256_one_block:
  assumes "digest_sized cr" "32 + length label + length sd < 2 ^ 32"
  shows "PRF_SHA256 cr secret label sd (uninitialised 32) 32 =
     Inr (HMAC cr secret (HMAC cr secret (label @ sd) @ label @ sd))"
proof -
  have "PRF_SHA256 cr secret label sd (uninitialised 32) 32 =
      Inr (take 32 (P_hash cr secret (label @ sd) 1) @ drop 32 (uninitialised 32))"
    using assms by (intro PRF_SHA256_eq) (simp_all add: uninitialised_def)
  then show ?thesis
    by (simp add: P_hash_def uninitialised_def digest_sized_HMAC [OF assms(1)])
qed

text \<open>
  Claim C1. \<open>PRF_SHA256\<close> is the \<open>P_hash\<close> expansion of RFC 5246: for every secret,
  label and seed that the \<open>guint32\<close> lengths of the function can describe (the size
  \<open>32 + label_len + seed_len\<close> of its work buffer does not wrap), for every requested
  length \<open>len\<close> that the caller's buffer \<open>out\<close> has room for, and for every number \<open>n\<close>
  of blocks that covers \<open>len\<close>, the call leaves in the first \<open>len\<close> bytes of \<open>out\<close>
  the concatenation of \<open>HMAC(secret, A(i) || label || sd)\<close> for \<open>i = 1, ..., n\<close> cut
  to exactly \<open>len\<close> bytes, also when \<open>len\<close> is not a multiple of 32, and leaves the
  rest of \<open>out\<close> as it was. The written bytes are a function of the secret, the label, the
  sd and the length alone: what \<open>out\<close> held before does not matter, so two calls on the
  same inputs write the same bytes.
\<close>

theorem PRF_SHA256_is_P_hash:
  assumes "digest_sized cr"
    and "32 + length label + length sd < 2 ^ 32"
    and "len \<le> length out"
    and "len \<le> length out'"
    and "len \<le> 32 * n"
  shows "\<exists>r r'. PRF_SHA256 cr secret label sd out len = Inr r
           \<and> PRF_SHA256 cr secret label sd out' len = Inr r'
           \<and> take len r = take len (P_hash cr secret (label @ sd) n)
           \<and> length (take len r) = len
           \<and> drop len r = drop len out
           \<and> take len r' = take len r"
proof -
  have l: "length (P_hash cr secret (label @ sd) n) = 32 * n"
    using assms(1) by (simp add: P_hash_blocks length_P_blocks)
  have r: "PRF_SHA256 cr secret label sd out len =
      Inr (take len (P_hash cr secret (label @ sd) n) @ drop len out)"
    using assms(1,2,3,5) by (rule PRF_SHA256_eq)
  have r': "PRF_SHA256 cr secret label sd out' len =
      Inr (take len (P_hash cr secret (label @ sd) n) @ drop len out')"
    using assms(1,2,4,5) by (rule PRF_SHA256_eq)
  show ?thesis
    unfolding r r' using l assms(5) by simp
qed

theorem PRF_SHA256_is_P_hash_witness:
  "digest_sized toy_crypto
   \<and> 32 + length [3 :: byte] + length [4, 5 :: byte] < (2 :: nat) ^ 32
   \<and> (37 :: nat) \<le> length (replicate 40 (7 :: byte))
   \<and> (37 :: nat) \<le> 32 * 2
   \<and> PRF_SHA256 toy_crypto [1, 2] [3] [4, 5] (replicate 40 7) 37
       = Inr ([35, 3, 3, 4, 5, 1, 2] @ replicate 25 0 @ [35, 32, 3, 3, 4] @ [7, 7, 7])
   \<and> take 37 (P_hash toy_crypto [1, 2] ([3] @ [4, 5]) 2)
       = [35, 3, 3, 4, 5, 1, 2] @ replicate 25 0 @ [35, 32, 3, 3, 4]"
proof -
  have p: "take 37 (P_hash toy_crypto [1, 2] ([3] @ [4, 5]) 2)
       = [35, 3, 3, 4, 5, 1, 2] @ replicate 25 0 @ [35, 32, 3, 3, 4]"
    by code_simp
  have "\<exists>r r'. PRF_SHA256 toy_crypto [1, 2] [3] [4, 5] (replicate 40 7) 37 = Inr r
           \<and> PRF_SHA256 toy_crypto [1, 2] [3] [4, 5] (replicate 40 7) 37 = Inr r'
           \<and> take 37 r = take 37 (P_hash toy_crypto [1, 2] ([3] @ [4, 5]) 2)
           \<and> length (take 37 r) = 37
           \<and> drop 37 r = drop 37 (replicate 40 7)
           \<and> take 37 r' = take 37 r"
    by (rule PRF_SHA256_is_P_hash) (simp_all add: digest_sized_toy)
  then obtain r where r: "PRF_SHA256 toy_crypto [1, 2] [3] [4, 5] (replicate 40 7) 37 = Inr r"
    and t: "take 37 r = take 37 (P_hash toy_crypto [1, 2] ([3] @ [4, 5]) 2)"
    and d: "drop 37 r = drop 37 (replicate 40 7)"
    by blast
  have "r = take 37 r @ drop 37 r"
    by simp
  then have "r = [35, 3, 3, 4, 5, 1, 2] @ replicate 25 0 @ [35, 32, 3, 3, 4] @ [7, 7, 7]"
    unfolding t d p by (simp add: numeral_eq_Suc)
  then show ?thesis
    using r p by (simp add: digest_sized_toy)
qed

section \<open>The seed and the derived keys\<close>

lemma seed_literal_bytes:
  "seed_literal = [0x56, 0x69, 0x72, 0x74, 0x75, 0x61, 0x6c, 0x42, 0x6f, 0x78, 0, 0x30, 0]"
  by (simp add: seed_literal_def)

text \<open>
  Claim C10. Whatever the device structure held before, \<open>fpi_device_vfs0097_init\<close> sets
  the seed to the same 13 bytes, \<open>VirtualBox\<close>, a zero byte, \<open>0\<close> and a zero byte, and its
  length to 13; nothing of the host enters. Hence the AES master key that
  \<open>init_private_key\<close> derives is \<open>PRF_SHA256\<close> of \<open>PRE_KEY\<close>, \<open>LABEL\<close> and these 13 bytes, and
  both the master key and the validation key derived from it are the same for any two
  devices that were constructed, whatever their structures held before.
\<close>

theorem seed_is_constant:
  "seed (fpi_device_vfs0097_init self) = Some seed_literal
   \<and> seed_length (fpi_device_vfs0097_init self) = 13
   \<and> seed_literal = [0x56, 0x69, 0x72, 0x74, 0x75, 0x61, 0x6c, 0x42, 0x6f, 0x78, 0, 0x30, 0]
   \<and> AES_MASTER_KEY cr h (fpi_device_vfs0097_init self)
       = PRF_SHA256 cr (PRE_KEY h) (LABEL h) seed_literal (uninitialised 32) 32
   \<and> AES_MASTER_KEY cr h (fpi_device_vfs0097_init self)
       = AES_MASTER_KEY cr h (fpi_device_vfs0097_init self')
   \<and> bindf (AES_MASTER_KEY cr h (fpi_device_vfs0097_init self)) (VALIDATION_KEY cr h)
       = bindf (AES_MASTER_KEY cr h (fpi_device_vfs0097_init self')) (VALIDATION_KEY cr h)"
proof -
  have l: "length seed_literal = 13"
    by (simp add: seed_literal_def)
  have k: "AES_MASTER_KEY cr h (fpi_device_vfs0097_init s)
       = PRF_SHA256 cr (PRE_KEY h) (LABEL h) seed_literal (uninitialised 32) 32" for s
    by (simp add: AES_MASTER_KEY_def fpi_device_vfs0097_init_def Let_def l rd_def guint32_def)
  show ?thesis
    by (simp add: k seed_literal_bytes [symmetric] l) (simp add: fpi_device_vfs0097_init_def Let_def l)
qed

text \<open>The two keys of the sample device.\<close>

lemma toy_device_seed: "seed toy_device = Some seed_literal" "seed_length toy_device = 13"
  by (simp_all add: toy_device_def fpi_device_vfs0097_init_def Let_def seed_literal_def)

lemma toy_AES_MASTER_KEY: "AES_MASTER_KEY toy_crypto toy_h toy_device = Inr toy_master_key"
proof -
  have "PRF_SHA256 toy_crypto [1, 2] [3] seed_literal (uninitialised 32) 32 =
     Inr (HMAC toy_crypto [1, 2] (HMAC toy_crypto [1, 2] ([3] @ seed_literal) @ [3] @ seed_literal))"
    by (rule PRF_SHA256_one_block) (simp_all add: digest_sized_toy seed_literal_bytes)
  also have "\<dots> = Inr toy_master_key"
    by (simp add: toy_HMAC seed_literal_bytes toy_master_key_def)
  finally show ?thesis
    by (simp add: AES_MASTER_KEY_def toy_device_seed rd_def guint32_def toy_h_def seed_literal_bytes)
qed

lemma toy_VALIDATION_KEY: "VALIDATION_KEY toy_crypto toy_h toy_master_key = Inr toy_validation_key"
proof -
  have "PRF_SHA256 toy_crypto toy_master_key [4] [5, 6] (uninitialised 32) 32 =
     Inr (HMAC toy_crypto toy_master_key (HMAC toy_crypto toy_master_key ([4] @ [5, 6]) @ [4] @ [5, 6]))"
    by (rule PRF_SHA256_one_block) (simp_all add: digest_sized_toy)
  also have "\<dots> = Inr toy_validation_key"
    by (simp add: toy_HMAC toy_master_key_def toy_validation_key_def)
  finally show ?thesis
    by (simp add: VALIDATION_KEY_def toy_h_def)
qed

section \<open>The initialisation machine\<close>

lemma check_initialized_other_length:
  "buffer_length self \<noteq> 38 \<Longrightarrow>
   init_ssm cr h CHECK_INITIALIZED self = Inr (No_call, fp_warn ''Unknown reply at init'' self)"
  by (simp add: init_ssm_def)

lemma check_initialized_not_provisioned:
  assumes "buffer_length self = 38" "buffer self = Some buf" "38 \<le> length buf" "buf ! 37 \<noteq> 0x07"
  shows "init_ssm cr h CHECK_INITIALIZED self =
     Inr (Mark_failed (FP_DEVICE_ERROR_GENERAL ''Device is not initialized''),
          fp_err sensor_is_not_initialized self)"
  using assms by (simp add: init_ssm_def rd_def take_Suc_conv_app_nth)

lemma check_initialized_provisioned:
  assumes "buffer_length self = 38" "buffer self = Some buf" "38 \<le> length buf" "buf ! 37 = 0x07"
  shows "init_ssm cr h CHECK_INITIALIZED self = Inr (Exec_command (INIT_SEQUENCE_MSG2 h), self)"
  using assms by (simp add: init_ssm_def rd_def take_Suc_conv_app_nth)

lemma exec_command_Response:
  assumes "buffer self = Some buf" "length resp \<le> VFS_USB_BUFFER_SIZE h" "length resp \<le> length buf"
  shows "exec_command h (Response resp) self =
     Inr (None, self\<lparr>buffer := Some (resp @ drop (length resp) buf), buffer_length := length resp\<rparr>)"
  using assms by (simp add: exec_command_def memcpy_def)

text \<open>The first state sends the first command; its response is in the buffer afterwards.\<close>

lemma init_ssm_run_first:
  assumes "usb 0 (INIT_SEQUENCE_MSG1 h) = Response resp" "length resp \<le> VFS_USB_BUFFER_SIZE h"
  shows "init_ssm_run cr h usb INIT_SM_STATES 0 (self\<lparr>buffer := Some (g_malloc0 (VFS_USB_BUFFER_SIZE h))\<rparr>) =
     init_ssm_run cr h usb (tl INIT_SM_STATES) 1
       (self\<lparr>buffer := Some (resp @ drop (length resp) (g_malloc0 (VFS_USB_BUFFER_SIZE h))),
             buffer_length := length resp\<rparr>)"
proof -
  have "exec_command h (Response resp) (self\<lparr>buffer := Some (g_malloc0 (VFS_USB_BUFFER_SIZE h))\<rparr>) =
     Inr (None, self\<lparr>buffer := Some (resp @ drop (length resp) (g_malloc0 (VFS_USB_BUFFER_SIZE h))),
             buffer_length := length resp\<rparr>)"
    using assms(2) by (simp add: exec_command_def memcpy_def g_malloc0_def)
  then show ?thesis
    using assms(1) by (simp add: INIT_SM_STATES_def init_ssm_def init_ssm_run.simps)
qed

text \<open>
  Claim C6. A device is opened whose seed is set and whose answer to the first command
  has 38 bytes. The machine then is in the state \<open>CHECK_INITIALIZED\<close> with that response.
  When the last byte is not \<open>0x07\<close>, the handler logs the error and fails the machine
  with the error "Device is not initialized"; the machine ends in that state with one
  command sent, and \<open>dev_open\<close> completes the open with this error. When the last byte is
  \<open>0x07\<close>, the handler runs into the code of \<open>SEND_INIT_2\<close> and sends the second
  command; when the device answers it, the machine goes on to the state \<open>SEND_INIT_2\<close>.
\<close>

theorem check_initialized_38:
  assumes "seed self \<noteq> None"
    and "usb 0 (INIT_SEQUENCE_MSG1 h) = Response resp"
    and "length resp = 38"
    and "38 \<le> VFS_USB_BUFFER_SIZE h"
  shows "\<exists>self1. buffer_length self1 = 38
     \<and> init_ssm_run cr h usb INIT_SM_STATES 0 (self\<lparr>buffer := Some (g_malloc0 (VFS_USB_BUFFER_SIZE h))\<rparr>)
         = init_ssm_run cr h usb (CHECK_INITIALIZED # drop 2 INIT_SM_STATES) 1 self1
     \<and> (last resp \<noteq> 0x07 \<longrightarrow>
          init_ssm cr h CHECK_INITIALIZED self1 =
            Inr (Mark_failed (FP_DEVICE_ERROR_GENERAL ''Device is not initialized''),
                 fp_err sensor_is_not_initialized self1)
          \<and> init_ssm_run cr h usb (CHECK_INITIALIZED # drop 2 INIT_SM_STATES) 1 self1 =
            Inr (SSM_FAILED (FP_DEVICE_ERROR_GENERAL ''Device is not initialized''),
                 Some CHECK_INITIALIZED, 1, fp_err sensor_is_not_initialized self1)
          \<and> dev_open cr h None usb self =
            Inr (Open_complete (Some (FP_DEVICE_ERROR_GENERAL ''Device is not initialized'')),
                 fp_err sensor_is_not_initialized self1))
     \<and> (last resp = 0x07 \<longrightarrow>
          init_ssm cr h CHECK_INITIALIZED self1 = Inr (Exec_command (INIT_SEQUENCE_MSG2 h), self1)
          \<and> (\<forall>resp2. usb 1 (INIT_SEQUENCE_MSG2 h) = Response resp2 \<longrightarrow>
                length resp2 \<le> VFS_USB_BUFFER_SIZE h \<longrightarrow>
                (\<exists>self2. init_ssm_run cr h usb (CHECK_INITIALIZED # drop 2 INIT_SM_STATES) 1 self1 =
                   init_ssm_run cr h usb (SEND_INIT_2 # drop 3 INIT_SM_STATES) 2 self2)))"
proof -
  let ?fresh = "g_malloc0 (VFS_USB_BUFFER_SIZE h)"
  let ?buf = "resp @ drop (length resp) ?fresh"
  let ?self1 = "self\<lparr>buffer := Some ?buf, buffer_length := length resp\<rparr>"
  have first: "init_ssm_run cr h usb INIT_SM_STATES 0 (self\<lparr>buffer := Some ?fresh\<rparr>) =
      init_ssm_run cr h usb (CHECK_INITIALIZED # drop 2 INIT_SM_STATES) 1 ?self1"
    using init_ssm_run_first [where usb = usb and h = h and resp = resp and cr = cr and self = self]
      assms(2,3,4)
    by (simp add: INIT_SM_STATES_def)
  have bl: "buffer_length ?self1 = 38" "buffer ?self1 = Some ?buf" "38 \<le> length ?buf"
    using assms(3,4) by (simp_all add: g_malloc0_def)
  have "resp \<noteq> []"
    using assms(3) by auto
  then have "last resp = resp ! 37"
    using assms(3) by (simp add: last_conv_nth)
  then have nth: "?buf ! 37 = last resp"
    using assms(3) by (simp add: nth_append)
  have bad: "last resp \<noteq> 0x07 \<Longrightarrow> init_ssm cr h CHECK_INITIALIZED ?self1 =
            Inr (Mark_failed (FP_DEVICE_ERROR_GENERAL ''Device is not initialized''),
                 fp_err sensor_is_not_initialized ?self1)"
    using check_initialized_not_provisioned [OF bl] nth by simp
  have good: "last resp = 0x07 \<Longrightarrow>
      init_ssm cr h CHECK_INITIALIZED ?self1 = Inr (Exec_command (INIT_SEQUENCE_MSG2 h), ?self1)"
    using check_initialized_provisioned [OF bl] nth by simp
  have run_bad: "last resp \<noteq> 0x07 \<Longrightarrow>
      init_ssm_run cr h usb (CHECK_INITIALIZED # drop 2 INIT_SM_STATES) 1 ?self1 =
            Inr (SSM_FAILED (FP_DEVICE_ERROR_GENERAL ''Device is not initialized''),
                 Some CHECK_INITIALIZED, 1, fp_err sensor_is_not_initialized ?self1)"
    by (simp add: bad init_ssm_run.simps)
  have open_bad: "last resp \<noteq> 0x07 \<Longrightarrow> dev_open cr h None usb self =
            Inr (Open_complete (Some (FP_DEVICE_ERROR_GENERAL ''Device is not initialized'')),
                 fp_err sensor_is_not_initialized ?self1)"
    using assms(1) run_bad by (simp add: dev_open_def first dev_open_callback_def)
  have run_good: "\<exists>self2. init_ssm_run cr h usb (CHECK_INITIALIZED # drop 2 INIT_SM_STATES) 1 ?self1 =
                   init_ssm_run cr h usb (SEND_INIT_2 # drop 3 INIT_SM_STATES) 2 self2"
    if "last resp = 0x07" "usb 1 (INIT_SEQUENCE_MSG2 h) = Response resp2"
      "length resp2 \<le> VFS_USB_BUFFER_SIZE h" for resp2
  proof -
    let ?self2 = "?self1\<lparr>buffer := Some (resp2 @ drop (length resp2) ?buf),
               buffer_length := length resp2\<rparr>"
    have ex: "exec_command h (Response resp2) ?self1 = Inr (None, ?self2)"
      using that(3) assms(3,4) by (intro exec_command_Response) (simp_all add: g_malloc0_def)
    have "init_ssm_run cr h usb (CHECK_INITIALIZED # drop 2 INIT_SM_STATES) 1 ?self1 =
        init_ssm_run cr h usb (drop 2 INIT_SM_STATES) (Suc 1) ?self2"
      using good [OF that(1)] that(2) ex by (subst init_ssm_run.simps) simp
    moreover have "drop 2 INIT_SM_STATES = SEND_INIT_2 # drop 3 INIT_SM_STATES"
      by (simp add: INIT_SM_STATES_def)
    ultimately show ?thesis
      by (metis Suc_1 numeral_2_eq_2 One_nat_def)
  qed
  show ?thesis
    using first bl(1) bad run_bad open_bad good run_good by blast
qed

theorem check_initialized_38_witness:
  "seed toy_device \<noteq> None
   \<and> toy_usb (replicate 37 0 @ [2]) 0 (INIT_SEQUENCE_MSG1 toy_h) = Response (replicate 37 0 @ [2])
   \<and> length (replicate 37 (0 :: byte) @ [2]) = 38
   \<and> 38 \<le> VFS_USB_BUFFER_SIZE toy_h
   \<and> map_sum id fst (dev_open toy_crypto toy_h None (toy_usb (replicate 37 0 @ [2])) toy_device)
       = Inr (Open_complete (Some (FP_DEVICE_ERROR_GENERAL ''Device is not initialized'')))
   \<and> (\<exists>self2. init_ssm_run toy_crypto toy_h (toy_usb (replicate 37 0 @ [7])) INIT_SM_STATES 0
          (toy_device\<lparr>buffer := Some (g_malloc0 (VFS_USB_BUFFER_SIZE toy_h))\<rparr>)
        = init_ssm_run toy_crypto toy_h (toy_usb (replicate 37 0 @ [7]))
            (SEND_INIT_2 # drop 3 INIT_SM_STATES) 2 self2)"
proof -
  have s: "seed toy_device \<noteq> None"
    by (simp add: toy_device_seed)
  have v: "38 \<le> VFS_USB_BUFFER_SIZE toy_h"
    by (simp add: toy_h_def)
  have u: "toy_usb r 0 (INIT_SEQUENCE_MSG1 toy_h) = Response r" for r
    by (simp add: toy_usb_def)
  have l: "length (replicate 37 (0 :: byte) @ [b]) = 38" for b
    by simp
  have bad: "map_sum id fst (dev_open toy_crypto toy_h None (toy_usb (replicate 37 0 @ [2])) toy_device)
       = Inr (Open_complete (Some (FP_DEVICE_ERROR_GENERAL ''Device is not initialized'')))"
    using check_initialized_38 [where self = toy_device and h = toy_h and cr = toy_crypto
        and usb = "toy_usb (replicate 37 0 @ [2])" and resp = "replicate 37 0 @ [2]"] s u v
    by auto
  have u2: "toy_usb (replicate 37 0 @ [7]) 1 (INIT_SEQUENCE_MSG2 toy_h) = Response []"
    by (simp add: toy_usb_def)
  have good: "\<exists>self2. init_ssm_run toy_crypto toy_h (toy_usb (replicate 37 0 @ [7])) INIT_SM_STATES 0
          (toy_device\<lparr>buffer := Some (g_malloc0 (VFS_USB_BUFFER_SIZE toy_h))\<rparr>)
        = init_ssm_run toy_crypto toy_h (toy_usb (replicate 37 0 @ [7]))
            (SEND_INIT_2 # drop 3 INIT_SM_STATES) 2 self2"
    using check_initialized_38 [where self = toy_device and h = toy_h and cr = toy_crypto
        and usb = "toy_usb (replicate 37 0 @ [7])" and resp = "replicate 37 0 @ [7]"] s u v u2
    by force
  show ?thesis
    using s v u [of "replicate 37 0 @ [2]"] bad good by simp
qed

text \<open>
  Claim C3. For a response whose length is not 38 the handler of \<open>CHECK_INITIALIZED\<close>
  is to log a warning, not to fail, and to continue with the code of \<open>SEND_INIT_2\<close>. The
  code does not do this. The branch of such a response ends with \<open>break\<close>, and it is the
  only path of the handler that returns without any of the calls that drive the
  machine (\<open>exec_command\<close>, \<open>do_handshake\<close>, \<open>fpi_ssm_next_state\<close>, \<open>fpi_ssm_mark_failed\<close>).
  For a response of ten bytes the handler makes no call on
  the machine, whereas the handler of \<open>SEND_INIT_2\<close> sends the second command; the machine
  is left in the state \<open>CHECK_INITIALIZED\<close> with one command sent, and the open never
  completes.
\<close>

theorem check_initialized_no_fall_through:
  "map_sum id fst (init_ssm toy_crypto toy_h CHECK_INITIALIZED
       (toy_device\<lparr>buffer := Some (replicate 10 1 @ replicate 502 0), buffer_length := 10\<rparr>))
     = Inr No_call
   \<and> map_sum id fst (init_ssm toy_crypto toy_h SEND_INIT_2
       (toy_device\<lparr>buffer := Some (replicate 10 1 @ replicate 502 0), buffer_length := 10\<rparr>))
     = Inr (Exec_command (INIT_SEQUENCE_MSG2 toy_h))
   \<and> map_sum id (\<lambda>(st, cur_state, n, self). (st, cur_state, n))
       (init_ssm_run toy_crypto toy_h (toy_usb (replicate 10 1)) INIT_SM_STATES 0
          (toy_device\<lparr>buffer := Some (g_malloc0 (VFS_USB_BUFFER_SIZE toy_h))\<rparr>))
     = Inr (SSM_WAITING, Some CHECK_INITIALIZED, 1)
   \<and> map_sum id fst (dev_open toy_crypto toy_h None (toy_usb (replicate 10 1)) toy_device)
     = Inr Open_not_complete"
proof -
  have u: "toy_usb (replicate 10 1) 0 (INIT_SEQUENCE_MSG1 toy_h) = Response (replicate 10 1)"
    by (simp add: toy_usb_def)
  have first: "init_ssm_run toy_crypto toy_h (toy_usb (replicate 10 1)) INIT_SM_STATES 0
          (toy_device\<lparr>buffer := Some (g_malloc0 (VFS_USB_BUFFER_SIZE toy_h))\<rparr>)
      = init_ssm_run toy_crypto toy_h (toy_usb (replicate 10 1)) (tl INIT_SM_STATES) 1
          (toy_device\<lparr>buffer := Some (replicate 10 1 @ drop 10 (g_malloc0 (VFS_USB_BUFFER_SIZE toy_h))),
             buffer_length := 10\<rparr>)"
    using init_ssm_run_first [where usb = "toy_usb (replicate 10 1)" and h = toy_h
        and resp = "replicate 10 1" and cr = toy_crypto and self = toy_device] u
    by (simp add: toy_h_def)
  have run: "map_sum id (\<lambda>(st, cur_state, n, self). (st, cur_state, n))
       (init_ssm_run toy_crypto toy_h (toy_usb (replicate 10 1)) INIT_SM_STATES 0
          (toy_device\<lparr>buffer := Some (g_malloc0 (VFS_USB_BUFFER_SIZE toy_h))\<rparr>))
     = Inr (SSM_WAITING, Some CHECK_INITIALIZED, 1)"
    unfolding first
    by (simp add: INIT_SM_STATES_def init_ssm_run.simps check_initialized_other_length)
  have opn: "map_sum id fst (dev_open toy_crypto toy_h None (toy_usb (replicate 10 1)) toy_device)
     = Inr Open_not_complete"
    unfolding dev_open_def first
    by (simp add: toy_device_seed INIT_SM_STATES_def init_ssm_run.simps
        check_initialized_other_length dev_open_callback_def)
  show ?thesis
    using run opn by (simp add: check_initialized_other_length) (simp add: init_ssm_def)
qed

section \<open>Unwrapping the private key\<close>

lemma init_private_key_prefix:
  assumes "AES_MASTER_KEY cr h self = Inr mk" "VALIDATION_KEY cr h mk = Inr vk"
    and "body \<noteq> []" "hd body \<noteq> 2"
  shows "init_private_key cr h self body n = Inr (fp_warn ''Unknown private key prefix %02x'' self)"
proof -
  obtain b bs where "body = b # bs" using assms(3) by (cases body) auto
  then have p: "rd body 0 1 = Inr [b]" "[b] \<noteq> [2]"
    using assms(4) by (simp_all add: rd_def)
  show ?thesis
    unfolding init_private_key_def
    by (simp only: assms(1,2) bindf_Inr p if_True not_False_eq_True simp_thms)
qed

lemma init_private_key_signature:
  assumes "AES_MASTER_KEY cr h self = Inr mk" "VALIDATION_KEY cr h mk = Inr vk"
    and "digest_sized cr" "33 \<le> n" "n < 65536" "n \<le> length body" "hd body = 2"
    and "HMAC cr vk (take (n - 33) (drop 1 body)) \<noteq> take 32 (drop (n - 32) body)"
  shows "init_private_key cr h self body n =
     Inr (fp_warn signature_verification_failed self)"
proof -
  obtain b bs where b: "body = b # bs" using assms(4,6) by (cases body) auto
  have p: "rd body 0 1 = Inr [2]"
    using assms(7) b by (simp add: rd_def)
  have g: "nat ((int n - 1 - int SHA256_DIGEST_LENGTH) mod 2 ^ 32) = n - 33"
    using guint16_length [OF assms(4,5)] by simp
  have e: "rd body 1 (n - 33) = Inr (take (n - 33) (drop 1 body))"
    using assms(4,6) by (simp add: rd_def)
  have s: "rd body (n - 32) 32 = Inr (take 32 (drop (n - 32) body))"
    using assms(4,6) by (simp add: rd_def)
  have n32: "(n < 32) = False"
    using assms(4) by simp
  show ?thesis
    unfolding init_private_key_def
    by (simp only: assms(1,2,8) bindf_Inr p g e s n32 HMAC_SHA256_fresh [OF assms(3)]
        if_True if_False not_False_eq_True simp_thms)
qed

lemma init_private_key_cases:
  assumes "init_private_key cr h self body n = Inr self'"
  shows "(\<exists>l m. self' = fp_log l m self \<and> l \<noteq> LOG_DEBUG)
    \<or> (\<exists>mk vk encrypted iv input out1 out2 xb yb db key.
      AES_MASTER_KEY cr h self = Inr mk \<and> VALIDATION_KEY cr h mk = Inr vk
    \<and> rd body 0 1 = Inr [2]
    \<and> rd body 1 (nat ((int n - 1 - 32) mod 2 ^ 32)) = Inr encrypted
    \<and> 32 \<le> n \<and> HMAC_SHA256 cr vk encrypted (uninitialised 32) = rd body (n - 32) 32
    \<and> rd body 1 16 = Inr iv \<and> EVP_DecryptInit cr mk iv
    \<and> rd body (1 + 0x10) 0x70 = Inr input
    \<and> EVP_DecryptUpdate cr mk iv input = Some out1
    \<and> EVP_DecryptFinal cr mk iv input = Some out2
    \<and> length out1 + length out2 \<le> 0x70
    \<and> rd (out1 @ out2) 0 0x20 = Inr xb
    \<and> rd (out1 @ out2) 0x20 0x20 = Inr yb
    \<and> rd (out1 @ out2) 0x40 0x20 = Inr db
    \<and> key = \<lparr> pub_key = Some (BN_lebin2bn xb, BN_lebin2bn yb),
              priv_key = Some (BN_lebin2bn db) \<rparr>
    \<and> EC_KEY_set_public_key_affine_coordinates cr (BN_lebin2bn xb) (BN_lebin2bn yb)
    \<and> EC_KEY_set_private_key cr (key\<lparr>priv_key := None\<rparr>) (BN_lebin2bn db)
    \<and> EC_KEY_check_key cr key
    \<and> self' = fp_dbg ''D: %s'' (fp_dbg ''Y: %s'' (fp_dbg ''X: %s''
            (self\<lparr>private_key := Some key\<rparr>))))"
  using assms unfolding init_private_key_def
  by (auto simp: bindf_def Let_def EC_KEY_new_by_curve_name_def
      split: sum.splits if_splits option.splits)


lemma fp_log_eq [simp]: "fp_log l m self = fp_log l' m' self \<longleftrightarrow> l = l' \<and> m = m'"
proof
  assume "fp_log l m self = fp_log l' m' self"
  then have "messages (fp_log l m self) = messages (fp_log l' m' self)"
    by simp
  then show "l = l' \<and> m = m'"
    by simp
qed simp

lemma fp_log_thrice:
  "fp_log l1 m1 (fp_log l2 m2 (fp_log l3 m3 (self\<lparr>private_key := k\<rparr>))) \<noteq> fp_log l m self"
proof
  assume "fp_log l1 m1 (fp_log l2 m2 (fp_log l3 m3 (self\<lparr>private_key := k\<rparr>))) = fp_log l m self"
  then have "messages (fp_log l1 m1 (fp_log l2 m2 (fp_log l3 m3 (self\<lparr>private_key := k\<rparr>))))
      = messages (fp_log l m self)"
    by simp
  then show False
    by simp
qed

text \<open>The warning about the signature is only written after the comparison of the digests.\<close>

lemma init_private_key_signature_only:
  assumes "init_private_key cr h self body n = Inr (fp_warn signature_verification_failed self)"
  shows "\<exists>mk vk encrypted.
      AES_MASTER_KEY cr h self = Inr mk \<and> VALIDATION_KEY cr h mk = Inr vk
    \<and> rd body 0 1 = Inr [2]
    \<and> rd body 1 (nat ((int n - 1 - 32) mod 2 ^ 32)) = Inr encrypted
    \<and> 32 \<le> n \<and> HMAC_SHA256 cr vk encrypted (uninitialised 32) \<noteq> rd body (n - 32) 32"
  using assms unfolding init_private_key_def
  by (auto simp: bindf_def Let_def EC_KEY_new_by_curve_name_def signature_verification_failed_def
      fp_log_thrice
      split: sum.splits if_splits option.splits)

text \<open>The run of \<open>init_private_key\<close> on a block that passes every check.\<close>

lemma init_private_key_installs:
  assumes "AES_MASTER_KEY cr h self = Inr mk" "VALIDATION_KEY cr h mk = Inr vk"
    and "digest_sized cr" "129 \<le> n" "n < 65536" "n \<le> length body" "hd body = 2"
    and "HMAC cr vk (take (n - 33) (drop 1 body)) = take 32 (drop (n - 32) body)"
    and "EVP_DecryptInit cr mk (take 16 (drop 1 body))"
    and "EVP_DecryptUpdate cr mk (take 16 (drop 1 body)) (take 0x70 (drop 17 body)) = Some out1"
    and "EVP_DecryptFinal cr mk (take 16 (drop 1 body)) (take 0x70 (drop 17 body)) = Some out2"
    and "length out1 + length out2 \<le> 0x70" "0x60 \<le> length out1 + length out2"
    and "x = BN_lebin2bn (take 32 (out1 @ out2))"
    and "y = BN_lebin2bn (take 32 (drop 32 (out1 @ out2)))"
    and "d = BN_lebin2bn (take 32 (drop 64 (out1 @ out2)))"
    and "EC_KEY_set_public_key_affine_coordinates cr x y"
    and "EC_KEY_set_private_key cr \<lparr> pub_key = Some (x, y), priv_key = None \<rparr> d"
    and "EC_KEY_check_key cr \<lparr> pub_key = Some (x, y), priv_key = Some d \<rparr>"
  shows "init_private_key cr h self body n =
     Inr (fp_dbg ''D: %s'' (fp_dbg ''Y: %s'' (fp_dbg ''X: %s''
            (self\<lparr>private_key := Some \<lparr> pub_key = Some (x, y), priv_key = Some d \<rparr>\<rparr>))))"
proof -
  obtain b bs where b: "body = b # bs" using assms(4,6) by (cases body) auto
  have p: "rd body 0 1 = Inr [2]"
    using assms(7) b by (simp add: rd_def)
  have n33: "33 \<le> n" using assms(4) by simp
  have g: "nat ((int n - 1 - int SHA256_DIGEST_LENGTH) mod 2 ^ 32) = n - 33"
    using guint16_length [OF n33 assms(5)] by simp
  have e: "rd body 1 (n - 33) = Inr (take (n - 33) (drop 1 body))"
    using assms(4,6) by (simp add: rd_def)
  have s: "rd body (n - 32) 32 = Inr (take 32 (drop (n - 32) body))"
    using assms(4,6) by (simp add: rd_def)
  have n32: "(n < 32) = False"
    using assms(4) by simp
  have iv: "rd body 1 16 = Inr (take 16 (drop 1 body))"
    using assms(4,6) by (simp add: rd_def)
  have inp: "rd body (1 + 0x10) 0x70 = Inr (take 0x70 (drop 17 body))"
    using assms(4,6) by (simp add: rd_def)
  have l1: "(0x70 < length out1) = False" "(0x70 < length out1 + length out2) = False"
    using assms(12) by simp_all
  have xb: "rd (out1 @ out2) 0 0x20 = Inr (take 32 (out1 @ out2))"
    using assms(13) by (simp add: rd_def)
  have yb: "rd (out1 @ out2) 0x20 0x20 = Inr (take 32 (drop 32 (out1 @ out2)))"
    using assms(13) by (simp add: rd_def)
  have db: "rd (out1 @ out2) 0x40 0x20 = Inr (take 32 (drop 64 (out1 @ out2)))"
    using assms(13) by (simp add: rd_def)
  have k1: "EC_KEY_new_by_curve_name\<lparr>pub_key := Some (x, y)\<rparr> = \<lparr> pub_key = Some (x, y), priv_key = None \<rparr>"
    by (simp add: EC_KEY_new_by_curve_name_def)
  have k2: "\<lparr> pub_key = Some (x, y), priv_key = None \<rparr>\<lparr>priv_key := Some d\<rparr>
      = \<lparr> pub_key = Some (x, y), priv_key = Some d \<rparr>"
    by simp
  show ?thesis
    unfolding init_private_key_def
    by (simp only: assms(1,2,8,9,10,11) assms(14,15,16) [symmetric] assms(17,18,19)
        bindf_Inr p g e s n32 iv inp l1 xb yb db k1 k2 Let_def
        HMAC_SHA256_fresh [OF assms(3)] option.case
        if_True if_False not_False_eq_True not_True_eq_False simp_thms)
qed

lemma toy_key_body_facts:
  "length (toy_key_body sig) = 129 + length sig"
  "hd (toy_key_body sig) = 2"
  "toy_key_body sig \<noteq> []"
  "drop (Suc 0) (toy_key_body sig) = replicate 16 9 @ toy_plaintext @ sig"
  "drop 1 (toy_key_body sig) = replicate 16 9 @ toy_plaintext @ sig"
  "drop 17 (toy_key_body sig) = toy_plaintext @ sig"
  "drop 129 (toy_key_body sig) = sig"
  "length toy_plaintext = 112"
  by (simp_all add: toy_key_body_def toy_plaintext_def)

lemma toy_signatures:
  "HMAC toy_crypto toy_validation_key (replicate 16 9 @ toy_plaintext) = toy_signature_all"
  "HMAC toy_crypto toy_validation_key toy_plaintext = toy_signature_tail"
  "toy_signature_all \<noteq> toy_signature_tail"
  "length toy_signature_all = 32" "length toy_signature_tail = 32"
  by (simp_all add: toy_HMAC toy_plaintext_def toy_signature_all_def toy_signature_tail_def)

lemma BN_lebin2bn_zeros [simp]: "BN_lebin2bn (replicate n 0) = 0"
  by (induction n) simp_all

lemma toy_numbers:
  "BN_lebin2bn (take 32 toy_plaintext) = 7"
  "BN_lebin2bn (take 32 (drop 32 toy_plaintext)) = 8"
  "BN_lebin2bn (take 32 (drop 64 toy_plaintext)) = 5"
  "length toy_plaintext = 112"
  by (simp_all add: toy_plaintext_def)

lemma toy_crypto_simps:
  "EVP_DecryptInit toy_crypto k iv"
  "EVP_DecryptUpdate toy_crypto k iv ct = Some ct"
  "EVP_DecryptFinal toy_crypto k iv ct = Some []"
  "EC_KEY_set_public_key_affine_coordinates toy_crypto x y"
  "EC_KEY_set_private_key toy_crypto key d"
  "EC_KEY_check_key toy_crypto key"
  by (simp_all add: toy_crypto_def)

text \<open>
  Claim C5. With the two keys derived, a block body whose first byte is not 2 makes
  \<open>init_private_key\<close> return with a warning, and so does a body (of a size that holds
  prefix and signature and lies in the buffer) whose stored signature differs from the
  HMAC that the function computes; the function returns normally, and a warning leaves
  the private key of the device as it was. Whenever the function returns with the
  private key changed, the prefix is 2, the computed HMAC equals the stored signature,
  the three decryption calls succeeded, the three key checks succeeded, and the new
  private key holds the numbers X, Y and D read from the plaintext.
\<close>

theorem private_key_unwrap_is_atomic:
  assumes "AES_MASTER_KEY cr h self = Inr mk" and "VALIDATION_KEY cr h mk = Inr vk"
  shows "(body \<noteq> [] \<and> hd body \<noteq> 2 \<longrightarrow>
            init_private_key cr h self body n =
              Inr (fp_warn ''Unknown private key prefix %02x'' self))
       \<and> (digest_sized cr \<and> 33 \<le> n \<and> n < 65536 \<and> n \<le> length body \<and> hd body = 2
            \<and> HMAC cr vk (take (n - 33) (drop 1 body)) \<noteq> take 32 (drop (n - 32) body) \<longrightarrow>
            init_private_key cr h self body n = Inr (fp_warn signature_verification_failed self))
       \<and> private_key (fp_warn m self) = private_key self
       \<and> (\<forall>self'. init_private_key cr h self body n = Inr self'
              \<and> private_key self' \<noteq> private_key self \<longrightarrow>
            (\<exists>encrypted iv input out1 out2 xb yb db key.
                rd body 0 1 = Inr [2]
              \<and> rd body 1 (nat ((int n - 1 - 32) mod 2 ^ 32)) = Inr encrypted
              \<and> 32 \<le> n \<and> HMAC_SHA256 cr vk encrypted (uninitialised 32) = rd body (n - 32) 32
              \<and> rd body 1 16 = Inr iv \<and> EVP_DecryptInit cr mk iv
              \<and> rd body (1 + 0x10) 0x70 = Inr input
              \<and> EVP_DecryptUpdate cr mk iv input = Some out1
              \<and> EVP_DecryptFinal cr mk iv input = Some out2
              \<and> rd (out1 @ out2) 0 0x20 = Inr xb
              \<and> rd (out1 @ out2) 0x20 0x20 = Inr yb
              \<and> rd (out1 @ out2) 0x40 0x20 = Inr db
              \<and> key = \<lparr> pub_key = Some (BN_lebin2bn xb, BN_lebin2bn yb),
                        priv_key = Some (BN_lebin2bn db) \<rparr>
              \<and> EC_KEY_set_public_key_affine_coordinates cr (BN_lebin2bn xb) (BN_lebin2bn yb)
              \<and> EC_KEY_set_private_key cr (key\<lparr>priv_key := None\<rparr>) (BN_lebin2bn db)
              \<and> EC_KEY_check_key cr key
              \<and> private_key self' = Some key))"
    (is "?prefix \<and> ?signature \<and> ?warning \<and> ?changed")
proof -
  have a: ?prefix
    using init_private_key_prefix [OF assms] by blast
  have b: ?signature
    using init_private_key_signature [OF assms] by blast
  have c: ?warning
    by simp
  have d: ?changed
  proof (intro allI impI, elim conjE)
    fix self'
    assume r: "init_private_key cr h self body n = Inr self'"
      and k: "private_key self' \<noteq> private_key self"
    show "\<exists>encrypted iv input out1 out2 xb yb db key.
                rd body 0 1 = Inr [2]
              \<and> rd body 1 (nat ((int n - 1 - 32) mod 2 ^ 32)) = Inr encrypted
              \<and> 32 \<le> n \<and> HMAC_SHA256 cr vk encrypted (uninitialised 32) = rd body (n - 32) 32
              \<and> rd body 1 16 = Inr iv \<and> EVP_DecryptInit cr mk iv
              \<and> rd body (1 + 0x10) 0x70 = Inr input
              \<and> EVP_DecryptUpdate cr mk iv input = Some out1
              \<and> EVP_DecryptFinal cr mk iv input = Some out2
              \<and> rd (out1 @ out2) 0 0x20 = Inr xb
              \<and> rd (out1 @ out2) 0x20 0x20 = Inr yb
              \<and> rd (out1 @ out2) 0x40 0x20 = Inr db
              \<and> key = \<lparr> pub_key = Some (BN_lebin2bn xb, BN_lebin2bn yb),
                        priv_key = Some (BN_lebin2bn db) \<rparr>
              \<and> EC_KEY_set_public_key_affine_coordinates cr (BN_lebin2bn xb) (BN_lebin2bn yb)
              \<and> EC_KEY_set_private_key cr (key\<lparr>priv_key := None\<rparr>) (BN_lebin2bn db)
              \<and> EC_KEY_check_key cr key
              \<and> private_key self' = Some key"
      using init_private_key_cases [OF r] k assms by (elim disjE; clarsimp)
  qed
  show ?thesis
    using a b c d by (intro conjI)
qed


theorem private_key_unwrap_is_atomic_witness:
  "AES_MASTER_KEY toy_crypto toy_h toy_device = Inr toy_master_key
   \<and> VALIDATION_KEY toy_crypto toy_h toy_master_key = Inr toy_validation_key
   \<and> private_key toy_device = None
   \<and> init_private_key toy_crypto toy_h toy_device (3 # replicate 160 0) 161
       = Inr (fp_warn ''Unknown private key prefix %02x'' toy_device)
   \<and> init_private_key toy_crypto toy_h toy_device (toy_key_body toy_signature_tail) 161
       = Inr (fp_warn signature_verification_failed toy_device)
   \<and> private_key (fp_warn signature_verification_failed toy_device) = None
   \<and> init_private_key toy_crypto toy_h toy_device (toy_key_body toy_signature_all) 161
       = Inr (fp_dbg ''D: %s'' (fp_dbg ''Y: %s'' (fp_dbg ''X: %s''
            (toy_device\<lparr>private_key := Some \<lparr> pub_key = Some (7, 8), priv_key = Some 5 \<rparr>\<rparr>))))"
proof -
  note th = private_key_unwrap_is_atomic [OF toy_AES_MASTER_KEY toy_VALIDATION_KEY]
  have none: "private_key toy_device = None"
    by (simp add: toy_device_def fpi_device_vfs0097_init_def new_device_def Let_def)
  have p: "init_private_key toy_crypto toy_h toy_device (3 # replicate 160 0) 161
       = Inr (fp_warn ''Unknown private key prefix %02x'' toy_device)"
    using th [of "3 # replicate 160 0" 161] by simp
  have s: "init_private_key toy_crypto toy_h toy_device (toy_key_body toy_signature_tail) 161
       = Inr (fp_warn signature_verification_failed toy_device)"
    using th [of "toy_key_body toy_signature_tail" 161]
    by (simp add: digest_sized_toy toy_key_body_facts toy_signatures)
  have i: "init_private_key toy_crypto toy_h toy_device (toy_key_body toy_signature_all) 161
       = Inr (fp_dbg ''D: %s'' (fp_dbg ''Y: %s'' (fp_dbg ''X: %s''
            (toy_device\<lparr>private_key := Some \<lparr> pub_key = Some (7, 8), priv_key = Some 5 \<rparr>\<rparr>))))"
    by (rule init_private_key_installs [OF toy_AES_MASTER_KEY toy_VALIDATION_KEY digest_sized_toy,
          where ?out1.0 = toy_plaintext and ?out2.0 = "[]"])
      (simp_all add: toy_key_body_facts toy_signatures toy_numbers toy_crypto_simps)
  show ?thesis
    using none p s i by (simp add: toy_AES_MASTER_KEY toy_VALIDATION_KEY)
qed

text \<open>
  Claim C2 says that the HMAC which the unwrapper compares with the trailing signature
  is taken over the bytes before the signature without the prefix and without the 16
  bytes of the initialisation vector. In the sample block the stored signature is the
  HMAC, under the validation key, of exactly these bytes, and the unwrapper rejects the
  block: its HMAC is not taken over them.
\<close>

theorem signature_excluding_iv_is_rejected:
  "VALIDATION_KEY toy_crypto toy_h toy_master_key = Inr toy_validation_key
   \<and> HMAC toy_crypto toy_validation_key
        (take (161 - 1 - 32 - 16) (drop (1 + 16) (toy_key_body toy_signature_tail)))
       = take 32 (drop (161 - 32) (toy_key_body toy_signature_tail))
   \<and> init_private_key toy_crypto toy_h toy_device (toy_key_body toy_signature_tail) 161
       = Inr (fp_warn signature_verification_failed toy_device)"
proof -
  have "init_private_key toy_crypto toy_h toy_device (toy_key_body toy_signature_tail) 161
       = Inr (fp_warn signature_verification_failed toy_device)"
    by (rule init_private_key_signature [OF toy_AES_MASTER_KEY toy_VALIDATION_KEY digest_sized_toy])
      (simp_all add: toy_key_body_facts toy_signatures)
  then show ?thesis
    by (simp add: toy_VALIDATION_KEY toy_key_body_facts toy_signatures)
qed

text \<open>
  Claim C2, amended. For every block body with prefix 2 whose size holds the prefix and
  the signature and lies in the buffer, the unwrapper reports a failed signature exactly
  when the trailing 32 bytes differ from the HMAC, under the validation key, of all
  \<open>size - 33\<close> bytes between the prefix and the signature. Whenever the size is at
  least 49, so that the 16 bytes which the decryption takes as its initialisation vector
  lie before the signature, they are the first 16 of these bytes.
\<close>

theorem signature_covers_all_after_prefix:
  assumes "AES_MASTER_KEY cr h self = Inr mk" and "VALIDATION_KEY cr h mk = Inr vk"
    and "digest_sized cr" and "33 \<le> n" and "n < 65536" and "n \<le> length body"
    and "hd body = 2"
  shows "(init_private_key cr h self body n = Inr (fp_warn signature_verification_failed self)
           \<longleftrightarrow> HMAC cr vk (take (n - 33) (drop 1 body)) \<noteq> take 32 (drop (n - 32) body))
       \<and> length (take (n - 33) (drop 1 body)) = n - 33
       \<and> (49 \<le> n \<longrightarrow> rd body 1 16 = Inr (take 16 (take (n - 33) (drop 1 body))))"
proof -
  have g: "nat ((int n - 1 - 32) mod 2 ^ 32) = n - 33"
    using assms(4,5) by (rule guint16_length)
  have e: "rd body 1 (n - 33) = Inr (take (n - 33) (drop 1 body))"
    using assms(4,6) by (simp add: rd_def)
  have s: "rd body (n - 32) 32 = Inr (take 32 (drop (n - 32) body))"
    using assms(4,6) by (simp add: rd_def)
  have "HMAC cr vk (take (n - 33) (drop 1 body)) \<noteq> take 32 (drop (n - 32) body)"
    if "init_private_key cr h self body n = Inr (fp_warn signature_verification_failed self)"
    using init_private_key_signature_only [OF that] assms(1,2)
    unfolding g e s by (auto simp: HMAC_SHA256_fresh [OF assms(3)])
  moreover have "init_private_key cr h self body n = Inr (fp_warn signature_verification_failed self)"
    if "HMAC cr vk (take (n - 33) (drop 1 body)) \<noteq> take 32 (drop (n - 32) body)"
    using assms that by (rule init_private_key_signature)
  moreover have "length (take (n - 33) (drop 1 body)) = n - 33"
    using assms(4,6) by simp
  moreover have "rd body 1 16 = Inr (take 16 (take (n - 33) (drop 1 body)))" if "49 \<le> n"
    using that assms(6) by (simp add: rd_def min_def)
  ultimately show ?thesis
    by blast
qed

theorem signature_covers_all_after_prefix_witness:
  "AES_MASTER_KEY toy_crypto toy_h toy_device = Inr toy_master_key
   \<and> VALIDATION_KEY toy_crypto toy_h toy_master_key = Inr toy_validation_key
   \<and> digest_sized toy_crypto \<and> (33 :: nat) \<le> 161 \<and> (161 :: nat) < 65536
   \<and> 161 \<le> length (toy_key_body toy_signature_all) \<and> hd (toy_key_body toy_signature_all) = 2
   \<and> HMAC toy_crypto toy_validation_key (take (161 - 33) (drop 1 (toy_key_body toy_signature_all)))
       = take 32 (drop (161 - 32) (toy_key_body toy_signature_all))
   \<and> init_private_key toy_crypto toy_h toy_device (toy_key_body toy_signature_all) 161
       \<noteq> Inr (fp_warn signature_verification_failed toy_device)
   \<and> rd (toy_key_body toy_signature_all) 1 16
       = Inr (take 16 (take (161 - 33) (drop 1 (toy_key_body toy_signature_all))))"
  using signature_covers_all_after_prefix [OF toy_AES_MASTER_KEY toy_VALIDATION_KEY digest_sized_toy,
      of 161 "toy_key_body toy_signature_all"]
  by (simp add: toy_AES_MASTER_KEY toy_VALIDATION_KEY digest_sized_toy toy_key_body_facts
      toy_signatures)

section \<open>The byte reader and the ECDH block\<close>

lemma get_data_ok:
  "rbyte r + k \<le> rsize r \<Longrightarrow>
   fpi_byte_reader_get_data r k = Inr (drop (rbyte r) (rdata r), r\<lparr>rbyte := rbyte r + k\<rparr>)"
  by (simp add: fpi_byte_reader_get_data_def fpi_byte_reader_get_remaining_def)

lemma get_uint_le_ok:
  "rbyte r + k \<le> rsize r \<Longrightarrow> rsize r \<le> length (rdata r) \<Longrightarrow>
   get_uint_le k r = Inr (BN_lebin2bn (take k (drop (rbyte r) (rdata r))), r\<lparr>rbyte := rbyte r + k\<rparr>)"
  by (simp add: get_uint_le_def get_data_ok rd_def)

lemma set_pos_ok:
  "p \<le> rsize r \<Longrightarrow> fpi_byte_reader_set_pos r p = Inr (r\<lparr>rbyte := p\<rparr>)"
  by (simp add: fpi_byte_reader_set_pos_def)

lemma check_ecdh_padding_ok:
  "rsize r \<le> length (rdata r) \<Longrightarrow>
   check_ecdh_padding r self =
     Inr (self\<lparr>messages := messages self @ padding_warnings (remaining_bytes r)\<rparr>)"
proof (induction r self rule: check_ecdh_padding.induct)
  case (1 reader self)
  show ?case
  proof (cases "0 < fpi_byte_reader_get_remaining reader")
    case False
    then show ?thesis
      by (subst check_ecdh_padding.simps)
        (simp add: fpi_byte_reader_get_remaining_def remaining_bytes_def padding_warnings_def)
  next
    case True
    then have lt: "rbyte reader < rsize reader"
      by (simp add: fpi_byte_reader_get_remaining_def)
    let ?b = "rdata reader ! rbyte reader"
    let ?r = "reader\<lparr>rbyte := rbyte reader + 1\<rparr>"
    have t: "take (Suc 0) (drop (rbyte reader) (rdata reader)) = [?b]"
      using lt "1.prems" by (simp add: take_Suc_conv_app_nth)
    have g: "fpi_byte_reader_get_uint8 reader = Inr (unat ?b, ?r)"
      using lt "1.prems" by (simp add: get_uint_le_ok t)
    have rem: "remaining_bytes reader = ?b # remaining_bytes ?r"
    proof -
      have "rsize reader - rbyte reader = Suc (rsize reader - (rbyte reader + 1))"
        using lt by simp
      moreover have "drop (rbyte reader) (rdata reader) = ?b # drop (rbyte reader + 1) (rdata reader)"
        using lt "1.prems" by (simp add: Cons_nth_drop_Suc)
      ultimately show ?thesis
        by (simp add: remaining_bytes_def)
    qed
    have IH: "check_ecdh_padding ?r (if unat ?b \<noteq> 0 then fp_warn ''Expected zero at %d'' self else self) =
        Inr ((if unat ?b \<noteq> 0 then fp_warn ''Expected zero at %d'' self else self)
              \<lparr>messages := messages (if unat ?b \<noteq> 0 then fp_warn ''Expected zero at %d'' self else self)
                 @ padding_warnings (remaining_bytes ?r)\<rparr>)"
      using "1.prems" by (intro "1.IH" [OF True g refl]) simp
    show ?thesis
      using True g IH
      by (subst check_ecdh_padding.simps)
        (auto simp: rem padding_warnings_def unat_eq_0 fp_log_def split: if_splits)
  qed
qed


text \<open>
  The run of \<open>check_ecdh\<close> on a block that holds the signed region, the length of the
  signature and the signature, with both public keys accepted by the curve.
\<close>

lemma check_ecdh_run:
  assumes ds: "digest_sized cr"
    and n: "n \<le> length body"
    and fit: "0x94 + BN_lebin2bn (take 4 (drop 0x90 body)) \<le> n"
    and dk: "32 \<le> length (DEVICE_KEY_X h)" "32 \<le> length (DEVICE_KEY_Y h)"
    and on: "EC_KEY_set_public_key_affine_coordinates cr
               (BN_lebin2bn (take 32 (drop 8 body))) (BN_lebin2bn (take 32 (drop 0x4c body)))"
    and don: "EC_KEY_set_public_key_affine_coordinates cr
               (BN_bin2bn (take 32 (DEVICE_KEY_X h))) (BN_bin2bn (take 32 (DEVICE_KEY_Y h)))"
  shows "check_ecdh cr h self body n =
     (let siglen = BN_lebin2bn (take 4 (drop 0x90 body));
          self1 = self\<lparr>ecdh_q := Some \<lparr> pub_key = Some (BN_lebin2bn (take 32 (drop 8 body)),
                                                    BN_lebin2bn (take 32 (drop 0x4c body))),
                                     priv_key = None \<rparr>,
                       messages := messages self @ [(LOG_DEBUG, ''ECDH X: %s''), (LOG_DEBUG, ''ECDH Y: %s'')]
                          @ padding_warnings (take (n - (0x94 + siglen)) (drop (0x94 + siglen) body))\<rparr>;
          verify_status = ECDSA_verify cr (SHA256 cr (take 0x90 body)) (take siglen (drop 0x94 body))
              \<lparr> pub_key = Some (BN_bin2bn (take 32 (DEVICE_KEY_X h)), BN_bin2bn (take 32 (DEVICE_KEY_Y h))),
                priv_key = None \<rparr>
      in Inr (if verify_status = 0 then fp_err ''Untrusted device'' self1
              else if verify_status < 0
                then fp_err ''Failed to verify signature, error: %lu, %s'' self1
              else self1))"
  using assms unfolding check_ecdh_def
  by (simp add: Let_def fpi_byte_reader_init_def set_pos_ok get_data_ok get_uint_le_ok
      check_ecdh_padding_ok remaining_bytes_def rd_def memcpy_def uninitialised_def
      digest_sized_SHA256 EC_KEY_new_by_curve_name_def fp_log_def add.commute)
    linarith

lemma digest_sized_ECDSA_verify [simp]: "digest_sized (cr\<lparr>ECDSA_verify := v\<rparr>) = digest_sized cr"
  by (simp add: digest_sized_def)

text \<open>
  Claim C4. Take a block that holds the signed region, the length of the signature and
  the signature, in which X and Y are accepted as a point of the curve, and let the
  manufacturer's key be accepted too. \<open>check_ecdh\<close> then stores the public key made of X
  and Y in \<open>self->ecdh_q\<close> and returns, whatever function stands for the ECDSA
  verification: the device structure it returns is the same for every outcome except for
  one error message, "Untrusted device" when the status is 0 and "Failed to verify
  signature" when it is negative. In particular a failed verification leaves the stored
  key in place.
\<close>

theorem ecdh_key_is_stored_whatever_the_verification:
  assumes "digest_sized cr"
    and "n \<le> length body"
    and "0x94 + BN_lebin2bn (take 4 (drop 0x90 body)) \<le> n"
    and "32 \<le> length (DEVICE_KEY_X h)" and "32 \<le> length (DEVICE_KEY_Y h)"
    and "EC_KEY_set_public_key_affine_coordinates cr
           (BN_lebin2bn (take 32 (drop 8 body))) (BN_lebin2bn (take 32 (drop 0x4c body)))"
    and "EC_KEY_set_public_key_affine_coordinates cr
           (BN_bin2bn (take 32 (DEVICE_KEY_X h))) (BN_bin2bn (take 32 (DEVICE_KEY_Y h)))"
  shows "let key = \<lparr> pub_key = Some (BN_lebin2bn (take 32 (drop 8 body)),
                                     BN_lebin2bn (take 32 (drop 0x4c body))),
                    priv_key = None \<rparr>;
             siglen = BN_lebin2bn (take 4 (drop 0x90 body));
             self1 = self\<lparr>ecdh_q := Some key,
                       messages := messages self @ [(LOG_DEBUG, ''ECDH X: %s''), (LOG_DEBUG, ''ECDH Y: %s'')]
                          @ padding_warnings (take (n - (0x94 + siglen)) (drop (0x94 + siglen) body))\<rparr>;
             dgst = SHA256 cr (take 0x90 body);
             sig = take siglen (drop 0x94 body);
             device_key = \<lparr> pub_key = Some (BN_bin2bn (take 32 (DEVICE_KEY_X h)),
                                            BN_bin2bn (take 32 (DEVICE_KEY_Y h))),
                            priv_key = None \<rparr>
         in \<forall>verify. \<exists>self'.
              check_ecdh (cr\<lparr>ECDSA_verify := verify\<rparr>) h self body n = Inr self'
            \<and> ecdh_q self' = Some key
            \<and> self' = (if verify dgst sig device_key = 0 then fp_err ''Untrusted device'' self1
                       else if verify dgst sig device_key < 0
                         then fp_err ''Failed to verify signature, error: %lu, %s'' self1
                       else self1)"
proof -
  have "check_ecdh (cr\<lparr>ECDSA_verify := verify\<rparr>) h self body n =
     (let siglen = BN_lebin2bn (take 4 (drop 0x90 body));
          self1 = self\<lparr>ecdh_q := Some \<lparr> pub_key = Some (BN_lebin2bn (take 32 (drop 8 body)),
                                                    BN_lebin2bn (take 32 (drop 0x4c body))),
                                     priv_key = None \<rparr>,
                       messages := messages self @ [(LOG_DEBUG, ''ECDH X: %s''), (LOG_DEBUG, ''ECDH Y: %s'')]
                          @ padding_warnings (take (n - (0x94 + siglen)) (drop (0x94 + siglen) body))\<rparr>;
          verify_status = ECDSA_verify (cr\<lparr>ECDSA_verify := verify\<rparr>)
              (SHA256 (cr\<lparr>ECDSA_verify := verify\<rparr>) (take 0x90 body)) (take siglen (drop 0x94 body))
              \<lparr> pub_key = Some (BN_bin2bn (take 32 (DEVICE_KEY_X h)), BN_bin2bn (take 32 (DEVICE_KEY_Y h))),
                priv_key = None \<rparr>
      in Inr (if verify_status = 0 then fp_err ''Untrusted device'' self1
              else if verify_status < 0
                then fp_err ''Failed to verify signature, error: %lu, %s'' self1
              else self1))" for verify
    using assms by (intro check_ecdh_run) simp_all
  then show ?thesis
    by (simp add: Let_def)
qed

lemma toy_ecdh_body_facts:
  "length (toy_ecdh_body x sig) = 152 + length sig"
  "take 32 (drop 8 (toy_ecdh_body x sig)) = [x] @ replicate 31 0"
  "take 32 (drop 76 (toy_ecdh_body x sig)) = [8] @ replicate 31 0"
  "take 4 (drop 144 (toy_ecdh_body x sig)) = [4, 0, 0, 0]"
  "drop 148 (toy_ecdh_body x sig) = sig @ [0, 0, 1, 0]"
  "length sig = 4 \<Longrightarrow> drop 152 (toy_ecdh_body x sig) = [0, 0, 1, 0]"
  "take 144 (toy_ecdh_body x sig) =
     replicate 8 0 @ ([x] @ replicate 31 0) @ replicate 36 0 @ ([8] @ replicate 31 0) @ replicate 36 0"
  by (simp_all add: toy_ecdh_body_def)

text \<open>\<open>check_ecdh\<close> on the sample block, wherever it lies in memory.\<close>

lemma toy_check_ecdh:
  assumes "length sig = 4"
  shows "check_ecdh toy_crypto toy_h self (toy_ecdh_body x sig @ rest) 156 =
     (let self1 = self\<lparr>ecdh_q := Some \<lparr> pub_key = Some (unat x, 8), priv_key = None \<rparr>,
                    messages := messages self @
                      [(LOG_DEBUG, ''ECDH X: %s''), (LOG_DEBUG, ''ECDH Y: %s''),
                       (LOG_WARNING, ''Expected zero at %d'')]\<rparr>
      in Inr (if take 1 sig = [0x90] then self1 else fp_err ''Untrusted device'' self1))"
proof -
  have r: "check_ecdh toy_crypto toy_h self (toy_ecdh_body x sig @ rest) 156 =
     (let siglen = BN_lebin2bn (take 4 (drop 0x90 (toy_ecdh_body x sig @ rest)));
          self1 = self\<lparr>ecdh_q := Some \<lparr> pub_key = Some (BN_lebin2bn (take 32 (drop 8 (toy_ecdh_body x sig @ rest))),
                                                    BN_lebin2bn (take 32 (drop 0x4c (toy_ecdh_body x sig @ rest)))),
                                     priv_key = None \<rparr>,
                       messages := messages self @ [(LOG_DEBUG, ''ECDH X: %s''), (LOG_DEBUG, ''ECDH Y: %s'')]
                          @ padding_warnings (take (156 - (0x94 + siglen)) (drop (0x94 + siglen) (toy_ecdh_body x sig @ rest)))\<rparr>;
          verify_status = ECDSA_verify toy_crypto (SHA256 toy_crypto (take 0x90 (toy_ecdh_body x sig @ rest)))
              (take siglen (drop 0x94 (toy_ecdh_body x sig @ rest)))
              \<lparr> pub_key = Some (BN_bin2bn (take 32 (DEVICE_KEY_X toy_h)), BN_bin2bn (take 32 (DEVICE_KEY_Y toy_h))),
                priv_key = None \<rparr>
      in Inr (if verify_status = 0 then fp_err ''Untrusted device'' self1
              else if verify_status < 0
                then fp_err ''Failed to verify signature, error: %lu, %s'' self1
              else self1))"
    using assms
    by (intro check_ecdh_run digest_sized_toy)
      (simp_all add: toy_ecdh_body_facts toy_crypto_simps, simp_all add: toy_h_def)
  have v: "ECDSA_verify toy_crypto dg sg k = (if take 1 sg = take 1 dg then 1 else 0)" for dg sg k
    by (simp add: toy_crypto_def)
  have sha: "SHA256 toy_crypto d = take 32 (of_nat (length d) # d @ replicate 32 0)" for d
    by (simp add: toy_crypto_def)
  show ?thesis
    unfolding r using assms
    by (simp add: Let_def toy_ecdh_body_facts padding_warnings_def v sha)
qed

theorem ecdh_key_is_stored_whatever_the_verification_witness:
  "digest_sized toy_crypto
   \<and> check_ecdh toy_crypto toy_h toy_device (toy_ecdh_body 7 [0x91, 0, 0, 0]) 156
       = Inr (fp_err ''Untrusted device'' toy_ecdh_device)
   \<and> check_ecdh toy_crypto toy_h toy_device (toy_ecdh_body 7 [0x90, 0, 0, 0]) 156
       = Inr toy_ecdh_device
   \<and> ecdh_q (fp_err ''Untrusted device'' toy_ecdh_device)
       = Some \<lparr> pub_key = Some (7, 8), priv_key = None \<rparr>
   \<and> ecdh_q toy_device = None"
proof -
  have c: "toy_crypto\<lparr>ECDSA_verify := ECDSA_verify toy_crypto\<rparr> = toy_crypto"
    by simp
  have v: "ECDSA_verify toy_crypto dg sg k = (if take 1 sg = take 1 dg then 1 else 0)" for dg sg k
    by (simp add: toy_crypto_def)
  have sha: "SHA256 toy_crypto d = take 32 (of_nat (length d) # d @ replicate 32 0)" for d
    by (simp add: toy_crypto_def)
  have dk: "32 \<le> length (DEVICE_KEY_X toy_h)" "32 \<le> length (DEVICE_KEY_Y toy_h)"
    by (simp_all add: toy_h_def)
  note facts = toy_ecdh_body_facts
  note th = ecdh_key_is_stored_whatever_the_verification [OF digest_sized_toy _ _ dk
      toy_crypto_simps(4) toy_crypto_simps(4),
      where self = toy_device and n = 156, unfolded Let_def,
      THEN spec [where x = "ECDSA_verify toy_crypto"], unfolded c]
  have bad: "check_ecdh toy_crypto toy_h toy_device (toy_ecdh_body 7 [0x91, 0, 0, 0]) 156
       = Inr (fp_err ''Untrusted device'' toy_ecdh_device)"
    using th [of "toy_ecdh_body 7 [0x91, 0, 0, 0]"]
    by (simp add: facts toy_ecdh_body_facts(1) padding_warnings_def toy_ecdh_device_def v sha)
  have good: "check_ecdh toy_crypto toy_h toy_device (toy_ecdh_body 7 [0x90, 0, 0, 0]) 156
       = Inr toy_ecdh_device"
    using th [of "toy_ecdh_body 7 [0x90, 0, 0, 0]"]
    by (simp add: facts toy_ecdh_body_facts(1) padding_warnings_def toy_ecdh_device_def v sha)
  have none: "ecdh_q toy_device = None"
    by (simp add: toy_device_def fpi_device_vfs0097_init_def new_device_def Let_def)
  show ?thesis
    using bad good none by (simp add: digest_sized_toy) (simp add: toy_ecdh_device_def)
qed

section \<open>The container parser\<close>

lemma unat_byte_of_nat: "unat (of_nat n :: byte) = n mod 256"
  by (simp add: unat_of_nat)

lemma BN_lebin2bn_le16: "n < 65536 \<Longrightarrow> BN_lebin2bn (le16 n) = n"
  by (simp add: le16_def unat_byte_of_nat)

lemma BN_lebin2bn_le32: "n < 2 ^ 32 \<Longrightarrow> BN_lebin2bn (le32 n) = n"
proof -
  assume "n < 2 ^ 32"
  then have "n div 16777216 < 256"
    by simp
  moreover have "n div 65536 = n div 256 div 256" "n div 16777216 = n div 256 div 256 div 256"
    by (simp_all add: div_mult2_eq)
  ultimately show ?thesis
    by (simp add: le32_def unat_byte_of_nat)
qed

lemma length_le16 [simp]: "length (le16 n) = 2"
  by (simp add: le16_def)

lemma length_le32 [simp]: "length (le32 n) = 4"
  by (simp add: le32_def)

lemma length_block_bytes:
  "block_ok b \<Longrightarrow> length (block_bytes b) = 36 + length (block_body b)"
  by (simp add: block_bytes_def block_ok_def)

text \<open>The loop at the end of the window.\<close>

lemma init_keys_loop_end:
  "rsize r \<le> rbyte r \<Longrightarrow> init_keys_loop cr h r self = Inr (r, self)"
  by (subst init_keys_loop.simps) (simp add: fpi_byte_reader_get_remaining_def)

text \<open>The loop at an end marker.\<close>

lemma init_keys_loop_marker:
  assumes "rsize r \<le> length (rdata r)" "rbyte r + 4 \<le> rsize r"
    and "take 2 (drop (rbyte r) (rdata r)) = [0xff, 0xff]"
  shows "init_keys_loop cr h r self = Inr (r\<lparr>rbyte := rbyte r + 4\<rparr>, self)"
proof -
  have a: "fpi_byte_reader_get_uint16_le r = Inr (0xffff, r\<lparr>rbyte := rbyte r + 2\<rparr>)"
    using assms by (simp add: get_uint_le_ok)
  have b: "fpi_byte_reader_get_uint16_le (r\<lparr>rbyte := rbyte r + 2\<rparr>) =
      Inr (BN_lebin2bn (take 2 (drop (rbyte r + 2) (rdata r))), r\<lparr>rbyte := rbyte r + 4\<rparr>)"
    using assms by (simp add: get_uint_le_ok)
  have c: "0 < fpi_byte_reader_get_remaining r"
    using assms by (simp add: fpi_byte_reader_get_remaining_def)
  show ?thesis
    using a b c by (subst init_keys_loop.simps) simp
qed

text \<open>The loop at a block.\<close>

lemma init_keys_loop_block:
  assumes ds: "digest_sized cr" and ok: "block_ok b"
    and win: "rsize r \<le> length (rdata r)" "rbyte r + length (block_bytes b) \<le> rsize r"
    and at: "drop (rbyte r) (rdata r) = block_bytes b @ rest"
  shows "init_keys_loop cr h r self =
     (if SHA256 cr (block_body b) \<noteq> block_hash b
      then init_keys_loop cr h (r\<lparr>rbyte := rbyte r + length (block_bytes b)\<rparr>)
             (fp_warn ''Hash mismatch for block %d'' self)
      else case init_keys_block cr h self (block_id b) (block_body b @ rest) (length (block_body b)) of
             Inl e \<Rightarrow> Inl e
           | Inr self' \<Rightarrow> init_keys_loop cr h (r\<lparr>rbyte := rbyte r + length (block_bytes b)\<rparr>) self')"
proof -
  let ?n = "length (block_body b)"
  have len: "length (block_bytes b) = 36 + ?n"
    using ok by (rule length_block_bytes)
  have idn: "block_id b < 65536" "?n < 65536" "block_id b \<noteq> 0xffff" "length (block_hash b) = 32"
    using ok by (simp_all add: block_ok_def)
  have c: "0 < fpi_byte_reader_get_remaining r"
    using win len by (simp add: fpi_byte_reader_get_remaining_def)
  have d: "drop (rbyte r + k) (rdata r) = drop k (block_bytes b @ rest)" for k
    using at by (metis add.commute drop_drop)
  have a1: "fpi_byte_reader_get_uint16_le r = Inr (block_id b, r\<lparr>rbyte := rbyte r + 2\<rparr>)"
    using win len idn by (simp add: get_uint_le_ok at block_bytes_def BN_lebin2bn_le16)
  have a2: "fpi_byte_reader_get_uint16_le (r\<lparr>rbyte := rbyte r + 2\<rparr>) =
      Inr (?n, r\<lparr>rbyte := rbyte r + 4\<rparr>)"
    using win len idn d [of 2] by (simp add: get_uint_le_ok block_bytes_def BN_lebin2bn_le16)
  have a3: "fpi_byte_reader_get_data (r\<lparr>rbyte := rbyte r + 4\<rparr>) 32 =
      Inr (block_hash b @ block_body b @ rest, r\<lparr>rbyte := rbyte r + 36\<rparr>)"
    using win len idn d [of 4] by (simp add: get_data_ok block_bytes_def)
  have a4: "fpi_byte_reader_get_data (r\<lparr>rbyte := rbyte r + 36\<rparr>) ?n =
      Inr (block_body b @ rest, r\<lparr>rbyte := rbyte r + length (block_bytes b)\<rparr>)"
    using win len idn d [of 36] by (simp add: get_data_ok block_bytes_def)
  have a5: "rd (block_body b @ rest) 0 ?n = Inr (block_body b)"
    by (simp add: rd_def)
  have a6: "memcpy (uninitialised 32) 0 (SHA256 cr (block_body b)) 32 = Inr (SHA256 cr (block_body b))"
    by (simp add: memcpy_def uninitialised_def digest_sized_SHA256 [OF ds])
  have a7: "rd (block_hash b @ block_body b @ rest) 0 32 = Inr (block_hash b)"
    using idn by (simp add: rd_def)
  show ?thesis
    using c idn(3)
    by (subst init_keys_loop.simps) (simp only: a1 a2 a3 a4 a5 a6 a7 sum.case prod.case if_True if_False simp_thms)
qed

lemma blocks_bytes_simps [simp]:
  "blocks_bytes [] = []"
  "blocks_bytes (b # bs) = block_bytes b @ blocks_bytes bs"
  "blocks_bytes (bs @ bs') = blocks_bytes bs @ blocks_bytes bs'"
  by (simp_all add: blocks_bytes_def)

text \<open>The loop over a sequence of blocks that fills the window, with or without an end marker.\<close>

lemma init_keys_loop_blocks:
  assumes ds: "digest_sized cr" and fin: "fin = [] \<or> end_marker fin"
  shows "\<forall>b \<in> set bs. block_ok b \<Longrightarrow> rsize r \<le> length (rdata r) \<Longrightarrow>
     drop (rbyte r) (rdata r) = blocks_bytes bs @ fin @ slack \<Longrightarrow>
     rsize r = rbyte r + length (blocks_bytes bs) + length fin \<Longrightarrow>
     init_keys_loop cr h r self =
       bindf (blocks_effect cr h bs (fin @ slack) self)
         (\<lambda>self'. Inr (r\<lparr>rbyte := rbyte r + length (blocks_bytes bs) + (if fin = [] then 0 else 4)\<rparr>, self'))"
proof (induction bs arbitrary: r self)
  case Nil
  show ?case
  proof (cases "fin = []")
    case True
    then show ?thesis
      using Nil by (simp add: init_keys_loop_end)
  next
    case False
    then have m: "4 \<le> length fin" "take 2 fin = [0xff, 0xff]"
      using fin by (simp_all add: end_marker_def)
    have "take 2 (drop (rbyte r) (rdata r)) = [0xff, 0xff]"
      using Nil.prems(3) m by simp
    then have "init_keys_loop cr h r self = Inr (r\<lparr>rbyte := rbyte r + 4\<rparr>, self)"
      using Nil.prems m by (intro init_keys_loop_marker) simp_all
    then show ?thesis
      using False by simp
  qed
next
  case (Cons b bs)
  let ?r = "r\<lparr>rbyte := rbyte r + length (block_bytes b)\<rparr>"
  have ok: "block_ok b" and oks: "\<forall>b \<in> set bs. block_ok b"
    using Cons.prems(1) by simp_all
  have step: "init_keys_loop cr h r self =
     (if SHA256 cr (block_body b) \<noteq> block_hash b
      then init_keys_loop cr h ?r (fp_warn ''Hash mismatch for block %d'' self)
      else case init_keys_block cr h self (block_id b) (block_body b @ blocks_bytes bs @ fin @ slack)
                  (length (block_body b)) of
             Inl e \<Rightarrow> Inl e
           | Inr self' \<Rightarrow> init_keys_loop cr h ?r self')"
    using ds ok Cons.prems(2) _ _
  proof (rule init_keys_loop_block)
    show "rbyte r + length (block_bytes b) \<le> rsize r"
      using Cons.prems(4) by simp
    show "drop (rbyte r) (rdata r) = block_bytes b @ blocks_bytes bs @ fin @ slack"
      using Cons.prems(3) by simp
  qed
  have d: "drop (rbyte ?r) (rdata ?r) = blocks_bytes bs @ fin @ slack"
  proof -
    have "drop (rbyte r + length (block_bytes b)) (rdata r) =
        drop (length (block_bytes b)) (drop (rbyte r) (rdata r))"
      by (simp add: add.commute)
    then show ?thesis
      using Cons.prems(3) by simp
  qed
  have IH: "init_keys_loop cr h ?r s =
       bindf (blocks_effect cr h bs (fin @ slack) s)
         (\<lambda>self'. Inr (?r\<lparr>rbyte := rbyte ?r + length (blocks_bytes bs) + (if fin = [] then 0 else 4)\<rparr>, self'))" for s
    using oks _ d _
  proof (rule Cons.IH)
    show "rsize ?r \<le> length (rdata ?r)"
      using Cons.prems(2) by simp
    show "rsize ?r = rbyte ?r + length (blocks_bytes bs) + length fin"
      using Cons.prems(4) by simp
  qed
  show ?case
  proof (cases "SHA256 cr (block_body b) \<noteq> block_hash b")
    case True
    then show ?thesis
      unfolding step IH by (simp add: add.assoc)
  next
    case False
    show ?thesis
    proof (cases "init_keys_block cr h self (block_id b)
        (block_body b @ blocks_bytes bs @ fin @ slack) (length (block_body b))")
      case (Inl e)
      then show ?thesis
        unfolding step using False by simp
    next
      case (Inr self')
      then show ?thesis
        unfolding step IH using False by (simp add: add.assoc)
    qed
  qed
qed

lemma bindf_assoc: "bindf (bindf m f) g = bindf m (\<lambda>x. bindf (f x) g)"
  by (simp add: bindf_def split: sum.splits)

lemma bindf_cong: "m = m' \<Longrightarrow> (\<And>x. m' = Inr x \<Longrightarrow> f x = g x) \<Longrightarrow> bindf m f = bindf m' g"
  by (simp add: bindf_def split: sum.splits)

lemma blocks_effect_append:
  "blocks_effect cr h (bs1 @ bs2) mem self =
     bindf (blocks_effect cr h bs1 (blocks_bytes bs2 @ mem) self) (blocks_effect cr h bs2 mem)"
  by (induction bs1 arbitrary: self) (auto simp: bindf_assoc intro!: bindf_cong)

lemma length_container_bytes:
  "length skip1 = 2 \<Longrightarrow> length skip2 = 2 \<Longrightarrow>
   length (container_bytes skip1 skip2 bs fin) = 8 + length (blocks_bytes bs) + length fin"
  by (simp add: container_bytes_def)

text \<open>\<open>init_keys\<close> on a container: the header, the assertion and the loop.\<close>

lemma init_keys_reader_container:
  assumes ds: "digest_sized cr" and fin: "fin = [] \<or> end_marker fin"
    and oks: "\<forall>b \<in> set bs. block_ok b"
    and buf: "buffer self = Some (container_bytes skip1 skip2 bs fin @ slack)"
    and sk: "length skip1 = 2" "length skip2 = 2"
    and bl: "buffer_length self = length (container_bytes skip1 skip2 bs fin)"
      "buffer_length self < 2 ^ 32"
  shows "init_keys_reader cr h self =
     bindf (blocks_effect cr h bs (fin @ slack) self)
       (\<lambda>self'. Inr (\<lparr> rdata = container_bytes skip1 skip2 bs fin @ slack,
                        rsize = buffer_length self,
                        rbyte = 8 + length (blocks_bytes bs) + (if fin = [] then 0 else 4) \<rparr>, self'))"
proof -
  let ?buf = "container_bytes skip1 skip2 bs fin @ slack"
  let ?n = "length (blocks_bytes bs @ fin)"
  let ?r = "\<lparr> rdata = ?buf, rsize = buffer_length self, rbyte = 8 \<rparr>"
  have len: "buffer_length self = 8 + ?n"
    using bl(1) sk by (simp add: length_container_bytes)
  have g: "guint32 (buffer_length self) = buffer_length self"
    using bl(2) by (rule guint32_small)
  have n: "?n < 2 ^ 32"
    using bl(2) len by simp
  have s1: "fpi_byte_reader_skip (fpi_byte_reader_init ?buf (buffer_length self)) 2 =
      Inr \<lparr> rdata = ?buf, rsize = buffer_length self, rbyte = 2 \<rparr>"
    using len by (simp add: fpi_byte_reader_skip_def fpi_byte_reader_init_def
        fpi_byte_reader_get_remaining_def)
  have "take 4 (drop 2 ?buf) = le32 ?n"
    using sk by (simp add: container_bytes_def)
  then have s2: "fpi_byte_reader_get_uint32_le \<lparr> rdata = ?buf, rsize = buffer_length self, rbyte = 2 \<rparr> =
      Inr (?n, \<lparr> rdata = ?buf, rsize = buffer_length self, rbyte = 6 \<rparr>)"
    using len sk BN_lebin2bn_le32 [OF n] by (simp add: get_uint_le_ok length_container_bytes)
  have s3: "fpi_byte_reader_skip \<lparr> rdata = ?buf, rsize = buffer_length self, rbyte = 6 \<rparr> 2 = Inr ?r"
    using len by (simp add: fpi_byte_reader_skip_def fpi_byte_reader_get_remaining_def)
  have rem: "fpi_byte_reader_get_remaining ?r = ?n"
    using len by (simp add: fpi_byte_reader_get_remaining_def)
  have loop: "init_keys_loop cr h ?r self =
       bindf (blocks_effect cr h bs (fin @ slack) self)
         (\<lambda>self'. Inr (?r\<lparr>rbyte := rbyte ?r + length (blocks_bytes bs) + (if fin = [] then 0 else 4)\<rparr>, self'))"
    using ds fin oks
  proof (rule init_keys_loop_blocks)
    show "rsize ?r \<le> length (rdata ?r)"
      using bl(1) by simp
    show "drop (rbyte ?r) (rdata ?r) = blocks_bytes bs @ fin @ slack"
      using sk by (simp add: container_bytes_def)
    show "rsize ?r = rbyte ?r + length (blocks_bytes bs) + length fin"
      using len by simp
  qed
  show ?thesis
    unfolding init_keys_reader_def buf g Let_def
    by (simp only: deref_Some bindf_Inr s1 s2 s3 rem prod.case simp_thms if_False loop)
      simp
qed

lemma init_keys_container:
  assumes "digest_sized cr" and "fin = [] \<or> end_marker fin"
    and "\<forall>b \<in> set bs. block_ok b"
    and "buffer self = Some (container_bytes skip1 skip2 bs fin @ slack)"
    and "length skip1 = 2" "length skip2 = 2"
    and "buffer_length self = length (container_bytes skip1 skip2 bs fin)"
      "buffer_length self < 2 ^ 32"
  shows "init_keys cr h self = blocks_effect cr h bs (fin @ slack) self"
  unfolding init_keys_def init_keys_reader_container [OF assms]
  by (simp add: bindf_def split: sum.splits)

text \<open>The assertion of \<open>init_keys\<close> on a header that declares another size.\<close>

lemma init_keys_reader_assertion:
  assumes "buffer self = Some buf" and "8 \<le> buffer_length self"
    and "buffer_length self \<le> length buf" and "buffer_length self < 2 ^ 32"
    and "BN_lebin2bn (take 4 (drop 2 buf)) \<noteq> buffer_length self - 8"
  shows "init_keys_reader cr h self = Inl Assertion_failed"
proof -
  have g: "guint32 (buffer_length self) = buffer_length self"
    using assms(4) by (rule guint32_small)
  have s1: "fpi_byte_reader_skip (fpi_byte_reader_init buf (buffer_length self)) 2 =
      Inr \<lparr> rdata = buf, rsize = buffer_length self, rbyte = 2 \<rparr>"
    using assms(2) by (simp add: fpi_byte_reader_skip_def fpi_byte_reader_init_def
        fpi_byte_reader_get_remaining_def)
  have s2: "fpi_byte_reader_get_uint32_le \<lparr> rdata = buf, rsize = buffer_length self, rbyte = 2 \<rparr> =
      Inr (BN_lebin2bn (take 4 (drop 2 buf)), \<lparr> rdata = buf, rsize = buffer_length self, rbyte = 6 \<rparr>)"
    using assms(2,3) by (simp add: get_uint_le_ok)
  have s3: "fpi_byte_reader_skip \<lparr> rdata = buf, rsize = buffer_length self, rbyte = 6 \<rparr> 2 =
      Inr \<lparr> rdata = buf, rsize = buffer_length self, rbyte = 8 \<rparr>"
    using assms(2) by (simp add: fpi_byte_reader_skip_def fpi_byte_reader_get_remaining_def)
  have rem: "fpi_byte_reader_get_remaining \<lparr> rdata = buf, rsize = buffer_length self, rbyte = 8 \<rparr>
      = buffer_length self - 8"
    by (simp add: fpi_byte_reader_get_remaining_def)
  have ne: "(buffer_length self - 8 \<noteq> BN_lebin2bn (take 4 (drop 2 buf))) = True"
    using assms(5) by simp
  show ?thesis
    unfolding init_keys_reader_def assms(1) g Let_def
    by (simp only: deref_Some bindf_Inr s1 s2 s3 rem prod.case ne if_True)
qed

text \<open>Which functions write the two keys.\<close>

lemma check_ecdh_padding_keeps:
  "check_ecdh_padding r self = Inr self' \<Longrightarrow>
   private_key self' = private_key self \<and> ecdh_q self' = ecdh_q self"
proof (induction r self rule: check_ecdh_padding.induct)
  case (1 reader self)
  show ?case
  proof (cases "0 < fpi_byte_reader_get_remaining reader")
    case False
    then show ?thesis
      using "1.prems" by (subst (asm) check_ecdh_padding.simps) simp
  next
    case True
    then obtain b reader' where g: "fpi_byte_reader_get_uint8 reader = Inr (b, reader')"
      and r: "check_ecdh_padding reader'
               (if b \<noteq> 0 then fp_warn ''Expected zero at %d'' self else self) = Inr self'"
      using "1.prems"
      by (subst (asm) check_ecdh_padding.simps) (auto split: sum.splits)
    show ?thesis
      using "1.IH" [OF True g refl r] by (simp split: if_splits)
  qed
qed

lemma check_ecdh_keeps_private_key:
  assumes "check_ecdh cr h self body n = Inr self'"
  shows "private_key self' = private_key self"
  using assms unfolding check_ecdh_def
  by (auto simp: bindf_def Let_def split: sum.splits if_splits prod.splits
      dest!: check_ecdh_padding_keeps)

lemma init_private_key_keeps_ecdh_q:
  assumes "init_private_key cr h self body n = Inr self'"
  shows "ecdh_q self' = ecdh_q self"
  using init_private_key_cases [OF assms] by auto

lemma init_certificate_keeps:
  "init_certificate self body n = Inr self' \<Longrightarrow>
   private_key self' = private_key self \<and> ecdh_q self' = ecdh_q self"
  by (auto simp: init_certificate_def bindf_def split: sum.splits)

lemma init_keys_block_keeps:
  assumes "init_keys_block cr h self i body n = Inr self'"
  shows "(i \<noteq> 4 \<longrightarrow> private_key self' = private_key self)
       \<and> (i \<noteq> 6 \<longrightarrow> ecdh_q self' = ecdh_q self)"
  using assms
  by (auto simp: init_keys_block_def split: if_splits
      dest: init_certificate_keeps check_ecdh_keeps_private_key init_private_key_keeps_ecdh_q)

lemma blocks_effect_keeps_private_key:
  "\<forall>b \<in> set bs. block_id b \<noteq> 4 \<or> SHA256 cr (block_body b) \<noteq> block_hash b \<Longrightarrow>
   blocks_effect cr h bs mem self = Inr self' \<Longrightarrow> private_key self' = private_key self"
proof (induction bs arbitrary: self)
  case Nil
  then show ?case by simp
next
  case (Cons b bs)
  show ?case
  proof (cases "SHA256 cr (block_body b) \<noteq> block_hash b")
    case True
    then have "blocks_effect cr h bs mem (fp_warn ''Hash mismatch for block %d'' self) = Inr self'"
      using Cons.prems(2) by simp
    then have "private_key self' = private_key (fp_warn ''Hash mismatch for block %d'' self)"
      using Cons.prems(1) by (intro Cons.IH) simp_all
    then show ?thesis by simp
  next
    case False
    then obtain s where s: "init_keys_block cr h self (block_id b)
          (block_body b @ blocks_bytes bs @ mem) (length (block_body b)) = Inr s"
      and r: "blocks_effect cr h bs mem s = Inr self'"
      using Cons.prems(2) by (auto simp: bindf_def split: sum.splits)
    have "block_id b \<noteq> 4"
      using Cons.prems(1) False by simp
    then have "private_key s = private_key self"
      using init_keys_block_keeps [OF s] by simp
    moreover have "private_key self' = private_key s"
      using Cons.prems(1) r by (intro Cons.IH) simp_all
    ultimately show ?thesis by simp
  qed
qed

lemma blocks_effect_keeps_ecdh_q:
  "\<forall>b \<in> set bs. block_id b \<noteq> 6 \<or> SHA256 cr (block_body b) \<noteq> block_hash b \<Longrightarrow>
   blocks_effect cr h bs mem self = Inr self' \<Longrightarrow> ecdh_q self' = ecdh_q self"
proof (induction bs arbitrary: self)
  case Nil
  then show ?case by simp
next
  case (Cons b bs)
  show ?case
  proof (cases "SHA256 cr (block_body b) \<noteq> block_hash b")
    case True
    then have "blocks_effect cr h bs mem (fp_warn ''Hash mismatch for block %d'' self) = Inr self'"
      using Cons.prems(2) by simp
    then have "ecdh_q self' = ecdh_q (fp_warn ''Hash mismatch for block %d'' self)"
      using Cons.prems(1) by (intro Cons.IH) simp_all
    then show ?thesis by simp
  next
    case False
    then obtain s where s: "init_keys_block cr h self (block_id b)
          (block_body b @ blocks_bytes bs @ mem) (length (block_body b)) = Inr s"
      and r: "blocks_effect cr h bs mem s = Inr self'"
      using Cons.prems(2) by (auto simp: bindf_def split: sum.splits)
    have "block_id b \<noteq> 6"
      using Cons.prems(1) False by simp
    then have "ecdh_q s = ecdh_q self"
      using init_keys_block_keeps [OF s] by simp
    moreover have "ecdh_q self' = ecdh_q s"
      using Cons.prems(1) r by (intro Cons.IH) simp_all
    ultimately show ?thesis by simp
  qed
qed

lemma init_ssm_keeps:
  assumes "init_ssm cr h st self = Inr (call, self')" and "st \<noteq> INIT_KEYS"
  shows "private_key self' = private_key self \<and> ecdh_q self' = ecdh_q self"
  using assms
  by (cases st) (auto simp: init_ssm_def bindf_def split: if_splits sum.splits)

lemma exec_command_keeps:
  assumes "exec_command h ex self = Inr (err, self')"
  shows "private_key self' = private_key self \<and> ecdh_q self' = ecdh_q self"
  using assms
  by (auto simp: exec_command_def bindf_def Let_def split: exchange.splits option.splits sum.splits)

section \<open>The block parser on containers\<close>

text \<open>Facts about the sample blocks.\<close>

lemma toy_blocks_ok:
  "block_ok toy_certificate_block" "block_ok toy_corrupted_block" "block_ok (toy_ecdh_block x)"
  by (simp_all add: block_ok_def toy_certificate_block_def toy_corrupted_block_def
      toy_ecdh_block_def toy_key_body_facts toy_signatures toy_ecdh_body_facts)

lemma toy_SHA256: "SHA256 toy_crypto d = take 32 (of_nat (length d) # d @ replicate 32 0)"
  by (simp add: toy_crypto_def)

lemma toy_blocks_hash:
  "SHA256 toy_crypto (block_body toy_certificate_block) = block_hash toy_certificate_block"
  "SHA256 toy_crypto (block_body toy_corrupted_block) \<noteq> block_hash toy_corrupted_block"
  "SHA256 toy_crypto (block_body (toy_ecdh_block x)) = block_hash (toy_ecdh_block x)"
  by (simp_all add: toy_SHA256 toy_certificate_block_def toy_corrupted_block_def
      toy_ecdh_block_def toy_key_body_def toy_ecdh_body_def toy_key_body_facts toy_signatures)

lemma toy_end_marker: "end_marker toy_end" "toy_end \<noteq> []"
  by (simp_all add: end_marker_def toy_end_def)

lemma toy_flash_fields:
  "buffer (toy_flash bs fin) = Some (container_bytes [0, 0] [0, 0] bs fin @ replicate 16 0)"
  "buffer_length (toy_flash bs fin) = length (container_bytes [0, 0] [0, 0] bs fin)"
  "private_key (toy_flash bs fin) = None"
  "ecdh_q (toy_flash bs fin) = None"
  "certificate (toy_flash bs fin) = None"
  "messages (toy_flash bs fin) = [(LOG_DEBUG, ''Initialized seed value: %s'')]"
  by (simp_all add: toy_flash_def toy_device_def fpi_device_vfs0097_init_def new_device_def Let_def)

lemma toy_block_lengths:
  "length (block_bytes toy_certificate_block) = 38"
  "length (block_bytes toy_corrupted_block) = 197"
  "length (block_bytes (toy_ecdh_block x)) = 192"
  by (simp_all add: length_block_bytes toy_blocks_ok)
    (simp_all add: toy_certificate_block_def toy_corrupted_block_def toy_ecdh_block_def
      toy_key_body_facts toy_signatures toy_ecdh_body_facts)

text \<open>The effect of the sample blocks, wherever they lie in memory.\<close>

lemma toy_certificate_effect:
  "init_keys_block cr h self (block_id toy_certificate_block)
     (block_body toy_certificate_block @ rest) (length (block_body toy_certificate_block))
   = Inr (self\<lparr>certificate_length := 2, certificate := Some [0xAA, 0xBB]\<rparr>)"
  by (simp add: init_keys_block_def toy_certificate_block_def init_certificate_def memcpy_def
      g_malloc0_def)

lemma toy_ecdh_effect:
  "init_keys_block toy_crypto toy_h self (block_id (toy_ecdh_block x))
     (block_body (toy_ecdh_block x) @ rest) (length (block_body (toy_ecdh_block x)))
   = Inr (self\<lparr>ecdh_q := Some \<lparr> pub_key = Some (unat x, 8), priv_key = None \<rparr>,
                    messages := messages self @
                      [(LOG_DEBUG, ''ECDH X: %s''), (LOG_DEBUG, ''ECDH Y: %s''),
                       (LOG_WARNING, ''Expected zero at %d'')]\<rparr>)"
  using toy_check_ecdh [of "[0x90, 0, 0, 0]" self x rest]
  by (simp add: init_keys_block_def toy_ecdh_block_def toy_ecdh_body_facts Let_def)

text \<open>
  Claim C7. For every flash container whose payload is a sequence of blocks, followed
  by nothing or by an end marker and any bytes, \<open>init_keys\<close> does what the specification
  says of the blocks (\<open>blocks_effect\<close>): a block whose body does not have the stored hash
  only adds the warning "Hash mismatch", the blocks after it are parsed as if it were
  not there, and nothing behind an identifier \<open>0xffff\<close> is parsed. In particular, with a
  corrupted block \<open>b\<close> between the blocks \<open>bs1\<close> and \<open>bs2\<close>, the result is the effect of
  \<open>bs1\<close>, the warning, and the effect of \<open>bs2\<close>.
\<close>

theorem init_keys_skips_corrupted_blocks:
  assumes "digest_sized cr" and "fin = [] \<or> end_marker fin"
    and "\<forall>b \<in> set bs. block_ok b"
    and "buffer self = Some (container_bytes skip1 skip2 bs fin @ slack)"
    and "length skip1 = 2" and "length skip2 = 2"
    and "buffer_length self = length (container_bytes skip1 skip2 bs fin)"
    and "buffer_length self < 2 ^ 32"
  shows "init_keys cr h self = blocks_effect cr h bs (fin @ slack) self
       \<and> (\<forall>bs1 b bs2. bs = bs1 @ b # bs2 \<and> SHA256 cr (block_body b) \<noteq> block_hash b \<longrightarrow>
             init_keys cr h self =
               bindf (blocks_effect cr h bs1 (blocks_bytes (b # bs2) @ fin @ slack) self)
                 (\<lambda>self1. blocks_effect cr h bs2 (fin @ slack)
                            (fp_warn ''Hash mismatch for block %d'' self1)))"
proof -
  have e: "init_keys cr h self = blocks_effect cr h bs (fin @ slack) self"
    using assms by (rule init_keys_container)
  have "blocks_effect cr h (bs1 @ b # bs2) (fin @ slack) self =
               bindf (blocks_effect cr h bs1 (blocks_bytes (b # bs2) @ fin @ slack) self)
                 (\<lambda>self1. blocks_effect cr h bs2 (fin @ slack)
                            (fp_warn ''Hash mismatch for block %d'' self1))"
    if "SHA256 cr (block_body b) \<noteq> block_hash b" for bs1 b bs2
    using that by (auto simp: blocks_effect_append intro!: bindf_cong)
  then show ?thesis
    using e by auto
qed

theorem init_keys_skips_corrupted_blocks_witness:
  "digest_sized toy_crypto \<and> end_marker toy_end
   \<and> block_ok toy_certificate_block \<and> block_ok toy_corrupted_block \<and> block_ok (toy_ecdh_block 7)
   \<and> SHA256 toy_crypto (block_body toy_corrupted_block) \<noteq> block_hash toy_corrupted_block
   \<and> init_keys toy_crypto toy_h
        (toy_flash [toy_certificate_block, toy_corrupted_block, toy_ecdh_block 7] toy_end)
     = Inr ((toy_flash [toy_certificate_block, toy_corrupted_block, toy_ecdh_block 7] toy_end)
             \<lparr>certificate_length := 2, certificate := Some [0xAA, 0xBB],
              ecdh_q := Some \<lparr> pub_key = Some (7, 8), priv_key = None \<rparr>,
              messages := [(LOG_DEBUG, ''Initialized seed value: %s''),
                           (LOG_WARNING, ''Hash mismatch for block %d''),
                           (LOG_DEBUG, ''ECDH X: %s''), (LOG_DEBUG, ''ECDH Y: %s''),
                           (LOG_WARNING, ''Expected zero at %d'')]\<rparr>)
   \<and> private_key (toy_flash [toy_certificate_block, toy_corrupted_block, toy_ecdh_block 7] toy_end)
     = None"
proof -
  let ?bs = "[toy_certificate_block, toy_corrupted_block, toy_ecdh_block 7]"
  have l: "buffer_length (toy_flash ?bs toy_end) < 2 ^ 32"
    by (simp add: toy_flash_fields length_container_bytes toy_block_lengths toy_end_def)
  have "init_keys toy_crypto toy_h (toy_flash ?bs toy_end)
      = blocks_effect toy_crypto toy_h ?bs (toy_end @ replicate 16 0) (toy_flash ?bs toy_end)"
    using init_keys_skips_corrupted_blocks [OF digest_sized_toy _ _ toy_flash_fields(1) _ _
        toy_flash_fields(2) l, of toy_h]
    by (simp add: toy_end_marker toy_blocks_ok)
  also have "\<dots> = Inr ((toy_flash ?bs toy_end)
             \<lparr>certificate_length := 2, certificate := Some [0xAA, 0xBB],
              ecdh_q := Some \<lparr> pub_key = Some (7, 8), priv_key = None \<rparr>,
              messages := [(LOG_DEBUG, ''Initialized seed value: %s''),
                           (LOG_WARNING, ''Hash mismatch for block %d''),
                           (LOG_DEBUG, ''ECDH X: %s''), (LOG_DEBUG, ''ECDH Y: %s''),
                           (LOG_WARNING, ''Expected zero at %d'')]\<rparr>)"
    by (simp add: toy_blocks_hash toy_certificate_effect toy_ecdh_effect toy_flash_fields
        fp_log_def)
  finally show ?thesis
    by (simp add: digest_sized_toy toy_end_marker toy_blocks_ok toy_blocks_hash toy_flash_fields)
qed


text \<open>
  Claim C8 says that a container whose declared size does not match is rejected and that
  for every other well-formed container the bytes consumed equal the declared size. In
  the sample container the declared size is 8, the payload is an end marker followed by
  four bytes, and the parser stops at position 12, after four bytes of the payload.
\<close>

theorem end_marker_leaves_bytes_unread:
  "length toy_end = 8
   \<and> buffer (toy_flash [] toy_end) = Some ([0, 0] @ [8, 0, 0, 0] @ [0, 0] @ toy_end @ replicate 16 0)
   \<and> buffer_length (toy_flash [] toy_end) = 16
   \<and> init_keys_reader toy_crypto toy_h (toy_flash [] toy_end)
       = Inr (\<lparr> rdata = [0, 0] @ [8, 0, 0, 0] @ [0, 0] @ toy_end @ replicate 16 0,
                rsize = 16, rbyte = 12 \<rparr>, toy_flash [] toy_end)"
proof -
  have c: "container_bytes [0, 0] [0, 0] [] toy_end = [0, 0] @ [8, 0, 0, 0] @ [0, 0] @ toy_end"
    by (simp add: container_bytes_def le32_def toy_end_def)
  have l: "length toy_end = 8"
    by (simp add: toy_end_def)
  have "init_keys_reader toy_crypto toy_h (toy_flash [] toy_end) =
     bindf (blocks_effect toy_crypto toy_h [] (toy_end @ replicate 16 0) (toy_flash [] toy_end))
       (\<lambda>self'. Inr (\<lparr> rdata = container_bytes [0, 0] [0, 0] [] toy_end @ replicate 16 0,
                        rsize = buffer_length (toy_flash [] toy_end),
                        rbyte = 8 + length (blocks_bytes []) + (if toy_end = [] then 0 else 4) \<rparr>, self'))"
    by (rule init_keys_reader_container [OF digest_sized_toy _ _ toy_flash_fields(1) _ _
          toy_flash_fields(2)])
      (simp_all add: toy_end_marker toy_flash_fields c l)
  then show ?thesis
    by (simp add: toy_flash_fields c l toy_end_marker)
qed

text \<open>
  Claim C8, amended. A response of at least eight bytes whose bytes 2 to 5 do not hold
  the number of bytes after the eighth fails the assertion of \<open>init_keys\<close>. For a
  container whose payload is a sequence of blocks, followed by nothing or by an end
  marker and any bytes, the declared size is the length of the blocks and of what
  follows them, and the parser consumes the eight bytes of the header, the blocks and,
  if there is an end marker, the four bytes of its header: without an end marker the
  bytes consumed after the header are exactly the declared size, with one they are
  fewer by what follows the identifier and the length field of the marker.
\<close>

theorem init_keys_bytes_consumed:
  "(buffer other = Some buf \<and> 8 \<le> buffer_length other \<and> buffer_length other \<le> length buf
      \<and> buffer_length other < 2 ^ 32
      \<and> BN_lebin2bn (take 4 (drop 2 buf)) \<noteq> buffer_length other - 8 \<longrightarrow>
      init_keys_reader cr h other = Inl Assertion_failed
      \<and> init_keys cr h other = Inl Assertion_failed)
   \<and> (digest_sized cr \<and> (fin = [] \<or> end_marker fin) \<and> (\<forall>b \<in> set bs. block_ok b)
      \<and> buffer self = Some (container_bytes pre post bs fin @ slack)
      \<and> length pre = 2 \<and> length post = 2
      \<and> buffer_length self = length (container_bytes pre post bs fin)
      \<and> buffer_length self < 2 ^ 32 \<longrightarrow>
      init_keys_reader cr h self =
        bindf (blocks_effect cr h bs (fin @ slack) self)
          (\<lambda>self'. Inr (\<lparr> rdata = container_bytes pre post bs fin @ slack,
                           rsize = buffer_length self,
                           rbyte = 8 + length (blocks_bytes bs) + (if fin = [] then 0 else 4) \<rparr>, self'))
      \<and> BN_lebin2bn (take 4 (drop 2 (container_bytes pre post bs fin @ slack)))
          = length (blocks_bytes bs) + length fin
      \<and> buffer_length self = 8 + length (blocks_bytes bs) + length fin)"
proof (intro conjI impI; (elim conjE)?)
  assume a: "buffer other = Some buf" "8 \<le> buffer_length other" "buffer_length other \<le> length buf"
    "buffer_length other < 2 ^ 32" "BN_lebin2bn (take 4 (drop 2 buf)) \<noteq> buffer_length other - 8"
  then show r: "init_keys_reader cr h other = Inl Assertion_failed"
    by (rule init_keys_reader_assertion)
  show "init_keys cr h other = Inl Assertion_failed"
    by (simp add: init_keys_def r)
next
  assume a: "digest_sized cr" "fin = [] \<or> end_marker fin" "\<forall>b \<in> set bs. block_ok b"
    "buffer self = Some (container_bytes pre post bs fin @ slack)"
    "length pre = 2" "length post = 2"
    "buffer_length self = length (container_bytes pre post bs fin)"
    "buffer_length self < 2 ^ 32"
  show "init_keys_reader cr h self =
        bindf (blocks_effect cr h bs (fin @ slack) self)
          (\<lambda>self'. Inr (\<lparr> rdata = container_bytes pre post bs fin @ slack,
                           rsize = buffer_length self,
                           rbyte = 8 + length (blocks_bytes bs) + (if fin = [] then 0 else 4) \<rparr>, self'))"
    using a by (rule init_keys_reader_container)
  show s: "buffer_length self = 8 + length (blocks_bytes bs) + length fin"
    using a(5,6,7) by (simp add: length_container_bytes)
  have "length (blocks_bytes bs @ fin) < 2 ^ 32"
    using a(8) s by simp
  then have "BN_lebin2bn (le32 (length (blocks_bytes bs @ fin))) = length (blocks_bytes bs @ fin)"
    by (rule BN_lebin2bn_le32)
  then show "BN_lebin2bn (take 4 (drop 2 (container_bytes pre post bs fin @ slack)))
          = length (blocks_bytes bs) + length fin"
    using a(5) by (simp add: container_bytes_def)
qed

theorem init_keys_bytes_consumed_witness:
  "buffer toy_wrong_size = Some ([0, 0] @ [9, 0, 0, 0] @ [0, 0] @ toy_end)
   \<and> buffer_length toy_wrong_size = 16 \<and> length toy_end = 8
   \<and> BN_lebin2bn [9, 0, 0, 0] = 9
   \<and> init_keys_reader toy_crypto toy_h toy_wrong_size = Inl Assertion_failed
   \<and> init_keys toy_crypto toy_h toy_wrong_size = Inl Assertion_failed
   \<and> digest_sized toy_crypto \<and> block_ok toy_certificate_block
   \<and> buffer (toy_flash [toy_certificate_block] [])
     = Some (container_bytes [0, 0] [0, 0] [toy_certificate_block] [] @ replicate 16 0)
   \<and> container_bytes [0, 0] [0, 0] [toy_certificate_block] []
     = [0, 0] @ [38, 0, 0, 0] @ [0, 0] @ block_bytes toy_certificate_block
   \<and> length (block_bytes toy_certificate_block) = 38
   \<and> buffer_length (toy_flash [toy_certificate_block] []) = 46
   \<and> init_keys_reader toy_crypto toy_h (toy_flash [toy_certificate_block] [])
     = Inr (\<lparr> rdata = container_bytes [0, 0] [0, 0] [toy_certificate_block] [] @ replicate 16 0,
              rsize = 46, rbyte = 46 \<rparr>,
            (toy_flash [toy_certificate_block] [])
              \<lparr>certificate_length := 2, certificate := Some [0xAA, 0xBB]\<rparr>)
   \<and> BN_lebin2bn (take 4 (drop 2 (container_bytes [0, 0] [0, 0] [toy_certificate_block] []
        @ replicate 16 0))) = 38"
proof -
  let ?bs = "[toy_certificate_block]"
  let ?self = "toy_flash ?bs []"
  have w: "buffer toy_wrong_size = Some ([0, 0] @ [9, 0, 0, 0] @ [0, 0] @ toy_end)"
    "buffer_length toy_wrong_size = 16" "length toy_end = 8"
    by (simp_all add: toy_wrong_size_def toy_end_def)
  have c: "container_bytes [0, 0] [0, 0] ?bs []
     = [0, 0] @ [38, 0, 0, 0] @ [0, 0] @ block_bytes toy_certificate_block"
    by (simp add: container_bytes_def le32_def toy_block_lengths)
  have l: "buffer_length ?self = 46"
    by (simp add: toy_flash_fields length_container_bytes toy_block_lengths)
  have e: "blocks_effect toy_crypto toy_h ?bs (replicate 16 0) ?self
     = Inr (?self\<lparr>certificate_length := 2, certificate := Some [0xAA, 0xBB]\<rparr>)"
    by (simp add: toy_blocks_hash toy_certificate_effect)
  show ?thesis
    using init_keys_bytes_consumed [where other = toy_wrong_size
        and buf = "[0, 0] @ [9, 0, 0, 0] @ [0, 0] @ toy_end" and cr = toy_crypto and h = toy_h
        and fin = "[]" and bs = ?bs and self = ?self and pre = "[0, 0]" and post = "[0, 0]"
        and slack = "replicate 16 0"]
    by (simp add: w c l e digest_sized_toy toy_blocks_ok toy_block_lengths
        toy_flash_fields(1) del: blocks_effect.simps)
qed




end
